theory Spec2Isabelle
  imports Complex_Main
begin

section \<open>Simple image metrics: \<open>skimage/measure/simple_metrics.py\<close>\<close>

text \<open>
  The module computes three full-reference metrics between two NumPy arrays:
  \<open>mse\<close>, \<open>nrmse\<close> and \<open>psnr\<close>, through the helpers \<open>_assert_compatible\<close> and
  \<open>_as_floats\<close>. Every \<^verbatim>\<open>raise\<close> of the source, and every exception that a NumPy
  reduction, a dictionary lookup or a Python operator of the source raises, is a value
  \<open>Inl e\<close> of the result type.
\<close>

subsection \<open>Floating-point scalars\<close>

text \<open>
  A scalar is a finite real number, one of the two infinities, or NaN. The finite values
  that arithmetic produces are those of IEEE 754 binary64: every operation computes the
  exact real result and rounds it to the nearest representable value, ties to even, with
  gradual underflow and overflow to infinity. A division by zero and an invalid operation
  give an infinity or NaN (NumPy emits a warning and returns), never an exception, and
  every ordered comparison with NaN is false. The sign of zero is not modelled.
\<close>

datatype float64 = Fin real | PInf | NInf | NaN

fun fneg :: "float64 \<Rightarrow> float64" where
  "fneg (Fin a) = Fin (- a)"
| "fneg PInf = NInf"
| "fneg NInf = PInf"
| "fneg NaN = NaN"

text \<open>
  Rounding to binary64. A positive \<open>x\<close> with \<open>2\<^sup>e \<le> x < 2\<^sup>e\<^sup>+\<^sup>1\<close> lies between multiples of
  \<open>2\<^sup>e\<^sup>-\<^sup>5\<^sup>2\<close> (of \<open>2\<^sup>-\<^sup>1\<^sup>0\<^sup>7\<^sup>4\<close> in the subnormal range); it is rounded to the nearest multiple,
  to the even one of two equally near, and to infinity when that multiple is \<open>2\<^sup>1\<^sup>0\<^sup>2\<^sup>4\<close>.
\<close>

definition round_half_even :: "real \<Rightarrow> int" where
  "round_half_even q =
     (let f = \<lfloor>q\<rfloor>; d = q - of_int f
      in if d < 1 / 2 then f else if 1 / 2 < d then f + 1 else if even f then f else f + 1)"

definition ulp_exponent :: "real \<Rightarrow> int" where
  "ulp_exponent x = max (\<lfloor>log 2 x\<rfloor> - 52) (- 1074)"

definition round_pos :: "real \<Rightarrow> float64" where
  "round_pos x =
     (let u = 2 powr of_int (ulp_exponent x);
          y = of_int (round_half_even (x / u)) * u
      in if 2 ^ 1024 \<le> y then PInf else Fin y)"

definition round_float64 :: "real \<Rightarrow> float64" where
  "round_float64 x =
     (if x = 0 then Fin 0 else if 0 < x then round_pos x else fneg (round_pos (- x)))"

fun fadd :: "float64 \<Rightarrow> float64 \<Rightarrow> float64" where
  "fadd (Fin a) (Fin b) = round_float64 (a + b)"
| "fadd (Fin a) PInf = PInf"
| "fadd (Fin a) NInf = NInf"
| "fadd PInf (Fin b) = PInf"
| "fadd PInf PInf = PInf"
| "fadd PInf NInf = NaN"
| "fadd NInf (Fin b) = NInf"
| "fadd NInf PInf = NaN"
| "fadd NInf NInf = NInf"
| "fadd NaN y = NaN"
| "fadd x NaN = NaN"

definition fsub :: "float64 \<Rightarrow> float64 \<Rightarrow> float64" where
  "fsub x y = fadd x (fneg y)"

fun fmul :: "float64 \<Rightarrow> float64 \<Rightarrow> float64" where
  "fmul (Fin a) (Fin b) = round_float64 (a * b)"
| "fmul (Fin a) PInf = (if a = 0 then NaN else if 0 < a then PInf else NInf)"
| "fmul (Fin a) NInf = (if a = 0 then NaN else if 0 < a then NInf else PInf)"
| "fmul PInf (Fin b) = (if b = 0 then NaN else if 0 < b then PInf else NInf)"
| "fmul NInf (Fin b) = (if b = 0 then NaN else if 0 < b then NInf else PInf)"
| "fmul PInf PInf = PInf"
| "fmul PInf NInf = NInf"
| "fmul NInf PInf = NInf"
| "fmul NInf NInf = PInf"
| "fmul NaN y = NaN"
| "fmul x NaN = NaN"

text \<open>
  Division. A finite nonzero value over zero is an infinity, zero over zero and an infinity
  over an infinity are NaN. With one zero only, the zero divisor counts as positive.
\<close>

fun fdiv :: "float64 \<Rightarrow> float64 \<Rightarrow> float64" where
  "fdiv (Fin a) (Fin b) =
     (if b \<noteq> 0 then round_float64 (a / b)
      else if a = 0 then NaN
      else if 0 < a then PInf else NInf)"
| "fdiv (Fin a) PInf = Fin 0"
| "fdiv (Fin a) NInf = Fin 0"
| "fdiv PInf (Fin b) = (if 0 \<le> b then PInf else NInf)"
| "fdiv NInf (Fin b) = (if 0 \<le> b then NInf else PInf)"
| "fdiv PInf PInf = NaN"
| "fdiv PInf NInf = NaN"
| "fdiv NInf PInf = NaN"
| "fdiv NInf NInf = NaN"
| "fdiv NaN y = NaN"
| "fdiv x NaN = NaN"

text \<open>
  \<open>np.sqrt\<close> is correctly rounded; \<open>np.log10\<close> is taken to be, which the library
  promises up to one unit in the last place.
\<close>

fun fsqrt :: "float64 \<Rightarrow> float64" where
  "fsqrt (Fin a) = (if a < 0 then NaN else round_float64 (sqrt a))"
| "fsqrt PInf = PInf"
| "fsqrt NInf = NaN"
| "fsqrt NaN = NaN"

fun flog10 :: "float64 \<Rightarrow> float64" where
  "flog10 (Fin a) =
     (if a < 0 then NaN else if a = 0 then NInf else round_float64 (log 10 a))"
| "flog10 PInf = PInf"
| "flog10 NInf = NaN"
| "flog10 NaN = NaN"

fun flt :: "float64 \<Rightarrow> float64 \<Rightarrow> bool" where
  "flt (Fin a) (Fin b) = (a < b)"
| "flt (Fin a) PInf = True"
| "flt (Fin a) NInf = False"
| "flt PInf y = False"
| "flt NInf (Fin b) = True"
| "flt NInf PInf = True"
| "flt NInf NInf = False"
| "flt x NaN = False"
| "flt NaN y = False"

fun fle :: "float64 \<Rightarrow> float64 \<Rightarrow> bool" where
  "fle (Fin a) (Fin b) = (a \<le> b)"
| "fle (Fin a) PInf = True"
| "fle (Fin a) NInf = False"
| "fle PInf (Fin b) = False"
| "fle PInf PInf = True"
| "fle PInf NInf = False"
| "fle NInf (Fin b) = True"
| "fle NInf PInf = True"
| "fle NInf NInf = True"
| "fle x NaN = False"
| "fle NaN y = False"

definition fgt :: "float64 \<Rightarrow> float64 \<Rightarrow> bool" where
  "fgt x y = flt y x"

definition fge :: "float64 \<Rightarrow> float64 \<Rightarrow> bool" where
  "fge x y = fle y x"

fun is_finite :: "float64 \<Rightarrow> bool" where
  "is_finite (Fin a) = True"
| "is_finite x = False"

text \<open>The binary steps of NumPy's \<open>maximum\<close> and \<open>minimum\<close> reductions: NaN propagates.\<close>

definition fmax :: "float64 \<Rightarrow> float64 \<Rightarrow> float64" where
  "fmax x y = (if x = NaN \<or> y = NaN then NaN else if flt x y then y else x)"

definition fmin :: "float64 \<Rightarrow> float64 \<Rightarrow> float64" where
  "fmin x y = (if x = NaN \<or> y = NaN then NaN else if flt y x then y else x)"

text \<open>The sum of a reduction, the additions taken from left to right.\<close>

definition fsum :: "float64 list \<Rightarrow> float64" where
  "fsum xs = foldl fadd (Fin 0) xs"

subsection \<open>Arrays and errors\<close>

datatype dtype =
  Bool | UInt8 | UInt16 | UInt32 | UInt64 | Int8 | Int16 | Int32 | Int64
  | Float16 | Float32 | Float64

text \<open>
  An \<open>ndarray\<close> has an element type, a shape and its elements in row-major order. An
  element is kept with its exact value whatever the element type is: a 64-bit integer
  array can hold \<open>2\<^sup>5\<^sup>3 + 1\<close>, which no binary64 value equals. NumPy holds
  \<open>length (elems X) = prod_list (shape X)\<close>.
\<close>

record ndarray =
  dtype :: dtype
  shape :: "nat list"
  elems :: "float64 list"

definition valid_array :: "ndarray \<Rightarrow> bool" where
  "valid_array X = (length (elems X) = prod_list (shape X))"

text \<open>
  The exceptions of the source: \<open>ValueError\<close> with its message (raised by the module, and
  by NumPy's \<open>min\<close>/\<open>max\<close> on an array without elements), \<open>KeyError\<close> from the lookup
  \<open>dtype_range[...]\<close>, and \<open>OverflowError\<close> from the operator \<open>**\<close> on a Python float.
\<close>

datatype error = ValueError string | KeyError dtype | OverflowError

definition msg_dtype :: string where
  "msg_dtype = ''Input images must have the same dtype.''"

definition msg_dimensions :: string where
  "msg_dimensions = ''Input images must have the same dimensions.''"

definition msg_norm_type :: string where
  "msg_norm_type = ''Unsupported norm_type''"

definition msg_range :: string where
  "msg_range = ''im_true has intensity values outside the range expected for '' @
               ''its data type.  Please manually specify the dynamic_range''"

definition msg_zero_size_max :: string where
  "msg_zero_size_max = ''zero-size array to reduction operation maximum which has no identity''"

definition msg_zero_size_min :: string where
  "msg_zero_size_min = ''zero-size array to reduction operation minimum which has no identity''"

text \<open>The error kinds the specification names, as classes of the source's exceptions.\<close>

definition IncompatibleInputsError :: "error \<Rightarrow> bool" where
  "IncompatibleInputsError e = (e = ValueError msg_dtype \<or> e = ValueError msg_dimensions)"

definition UnsupportedNormModeError :: "error \<Rightarrow> bool" where
  "UnsupportedNormModeError e = (e = ValueError msg_norm_type)"

definition OutOfRangeError :: "error \<Rightarrow> bool" where
  "OutOfRangeError e = (e = ValueError msg_range)"

definition UnknownDtypeError :: "error \<Rightarrow> bool" where
  "UnknownDtypeError e =
     (case e of KeyError t \<Rightarrow> True | ValueError m \<Rightarrow> False | OverflowError \<Rightarrow> False)"

subsection \<open>The NumPy operations the module calls\<close>

text \<open>
  \<open>X.astype(np.float64)\<close>: every element is converted to the nearest binary64 value. The
  conversion changes nothing on the values of the narrower element types, and rounds 64-bit
  integers above \<open>2\<^sup>5\<^sup>3\<close>.
\<close>

fun to_float64 :: "float64 \<Rightarrow> float64" where
  "to_float64 (Fin r) = round_float64 r"
| "to_float64 x = x"

definition astype_float64 :: "ndarray \<Rightarrow> ndarray" where
  "astype_float64 X = X\<lparr>dtype := Float64, elems := map to_float64 (elems X)\<rparr>"

text \<open>\<open>X - Y\<close> and \<open>X * Y\<close> on arrays of one shape, and \<open>np.square\<close>: elementwise.\<close>

definition arr_sub :: "ndarray \<Rightarrow> ndarray \<Rightarrow> ndarray" where
  "arr_sub X Y = X\<lparr>elems := map2 fsub (elems X) (elems Y)\<rparr>"

definition arr_mul :: "ndarray \<Rightarrow> ndarray \<Rightarrow> ndarray" where
  "arr_mul X Y = X\<lparr>elems := map2 fmul (elems X) (elems Y)\<rparr>"

definition square :: "ndarray \<Rightarrow> ndarray" where
  "square X = X\<lparr>elems := map (\<lambda>x. fmul x x) (elems X)\<rparr>"

text \<open>
  \<open>X.mean()\<close> is the sum over the number of elements; on an array without elements it is
  \<open>0 / 0\<close>, NaN. NumPy adds the elements in an order of its own (pairwise, in blocks),
  which the source does not fix; the sum here adds from left to right.
\<close>

definition mean :: "ndarray \<Rightarrow> float64" where
  "mean X = fdiv (fsum (elems X)) (Fin (real (length (elems X))))"

definition amax :: "ndarray \<Rightarrow> error + float64" where
  "amax X = (case elems X of
               [] \<Rightarrow> Inl (ValueError msg_zero_size_max)
             | x # xs \<Rightarrow> Inr (foldl fmax x xs))"

definition amin :: "ndarray \<Rightarrow> error + float64" where
  "amin X = (case elems X of
               [] \<Rightarrow> Inl (ValueError msg_zero_size_min)
             | x # xs \<Rightarrow> Inr (foldl fmin x xs))"

text \<open>
  \<open>str.lower\<close>. Only the ASCII capitals are mapped: no other character lower-cases to a
  character of the three mode names.
\<close>

definition lower_char :: "char \<Rightarrow> char" where
  "lower_char c =
     (let n = (of_char c :: nat) in if 65 \<le> n \<and> n \<le> 90 then char_of (n + 32) else c)"

definition lower :: "string \<Rightarrow> string" where
  "lower s = map lower_char s"

subsection \<open>The module\<close>

definition assert_compatible :: "ndarray \<Rightarrow> ndarray \<Rightarrow> error + unit" where
  "assert_compatible X Y =
     (if \<not> dtype X = dtype Y then Inl (ValueError msg_dtype)
      else if \<not> shape X = shape Y then Inl (ValueError msg_dimensions)
      else Inr ())"

definition as_floats :: "ndarray \<Rightarrow> ndarray \<Rightarrow> ndarray \<times> ndarray" where
  "as_floats X Y =
     (let X' = (if dtype X \<noteq> Float64 then astype_float64 X else X);
          Y' = (if dtype Y \<noteq> Float64 then astype_float64 Y else Y)
      in (X', Y'))"

definition mse :: "ndarray \<Rightarrow> ndarray \<Rightarrow> error + float64" where
  "mse X Y =
     (case assert_compatible X Y of
        Inl e \<Rightarrow> Inl e
      | Inr u \<Rightarrow>
          (case as_floats X Y of (X', Y') \<Rightarrow> Inr (mean (square (arr_sub X' Y')))))"

definition nrmse :: "ndarray \<Rightarrow> ndarray \<Rightarrow> string \<Rightarrow> error + float64" where
  "nrmse im_true im_test norm_type =
     (case assert_compatible im_true im_test of
        Inl e \<Rightarrow> Inl e
      | Inr u \<Rightarrow>
          (case as_floats im_true im_test of (im_true', im_test') \<Rightarrow>
             (let norm_type' = lower norm_type in
              case (if norm_type' = ''euclidean'' then
                      Inr (fsqrt (mean (arr_mul im_true' im_true')))
                    else if norm_type' = ''min-max'' then
                      (case amax im_true' of
                         Inl e \<Rightarrow> Inl e
                       | Inr mx \<Rightarrow>
                           (case amin im_true' of
                              Inl e \<Rightarrow> Inl e
                            | Inr mn \<Rightarrow> Inr (fsub mx mn)))
                    else if norm_type' = ''mean'' then
                      Inr (mean im_true')
                    else Inl (ValueError msg_norm_type)) of
                Inl e \<Rightarrow> Inl e
              | Inr denom \<Rightarrow>
                  (case mse im_true' im_test' of
                     Inl e \<Rightarrow> Inl e
                   | Inr m \<Rightarrow> Inr (fdiv (fsqrt m) denom)))))"

text \<open>
  \<open>dtype_range\<close> is imported from \<open>..util.dtype\<close>; it is a parameter here, a dictionary
  from element types to pairs \<open>(dmin, dmax)\<close> of numbers.
\<close>

type_synonym dtype_table = "dtype \<rightharpoonup> real \<times> real"

text \<open>The branch \<open>if dynamic_range is None:\<close> of \<open>psnr\<close>, lines 115 to 125.\<close>

definition infer_dynamic_range :: "dtype_table \<Rightarrow> ndarray \<Rightarrow> error + float64" where
  "infer_dynamic_range dtype_range im_true =
     (case dtype_range (dtype im_true) of
        None \<Rightarrow> Inl (KeyError (dtype im_true))
      | Some (dmin, dmax) \<Rightarrow>
          (case amin im_true of
             Inl e \<Rightarrow> Inl e
           | Inr true_min \<Rightarrow>
               (case amax im_true of
                  Inl e \<Rightarrow> Inl e
                | Inr true_max \<Rightarrow>
                    if fgt true_max (Fin dmax) \<or> flt true_min (Fin dmin) then
                      Inl (ValueError msg_range)
                    else if fge true_min (Fin 0) then Inr (Fin dmax)
                    else Inr (Fin (dmax - dmin)))))"

text \<open>
  \<open>dynamic_range ** 2\<close> on the last line. An entry of the table is an exact number (a
  Python int): its square is exact, and the division converts it to the nearest binary64
  value. A dynamic range that the caller supplies is a Python float: the operator \<open>**\<close>
  raises \<open>OverflowError\<close> when the square of a finite value overflows. A dynamic range of
  another numeric type (a NumPy scalar, whose square wraps or overflows to infinity, or a
  Python int of more than 64 bits) is outside the model.
\<close>

datatype origin = FromTable | FromCaller

definition power2 :: "origin \<Rightarrow> float64 \<Rightarrow> error + float64" where
  "power2 origin d =
     (case origin of
        FromTable \<Rightarrow> Inr (fmul d d)
      | FromCaller \<Rightarrow>
          if is_finite d \<and> \<not> is_finite (fmul d d) then Inl OverflowError
          else Inr (fmul d d))"

definition psnr :: "dtype_table \<Rightarrow> ndarray \<Rightarrow> ndarray \<Rightarrow> float64 option \<Rightarrow> error + float64" where
  "psnr dtype_range im_true im_test dynamic_range =
     (case assert_compatible im_true im_test of
        Inl e \<Rightarrow> Inl e
      | Inr u \<Rightarrow>
          (case (case dynamic_range of
                   None \<Rightarrow>
                     (case infer_dynamic_range dtype_range im_true of
                        Inl e \<Rightarrow> Inl e
                      | Inr d \<Rightarrow> Inr (FromTable, d))
                 | Some d \<Rightarrow> Inr (FromCaller, d)) of
             Inl e \<Rightarrow> Inl e
           | Inr (origin, dynamic_range') \<Rightarrow>
               (case as_floats im_true im_test of (im_true', im_test') \<Rightarrow>
                  (case mse im_true' im_test' of
                     Inl e \<Rightarrow> Inl e
                   | Inr err \<Rightarrow>
                       (case power2 origin dynamic_range' of
                          Inl e \<Rightarrow> Inl e
                        | Inr sq \<Rightarrow>
                            Inr (fmul (Fin 10) (flog10 (fdiv sq err))))))))"

subsection \<open>Notions of the specification and example inputs\<close>

text \<open>The array that \<open>_as_floats\<close> returns for an array.\<close>

definition promoted :: "ndarray \<Rightarrow> ndarray" where
  "promoted X = (if dtype X \<noteq> Float64 then astype_float64 X else X)"

text \<open>
  The squared difference at one element position and its mean over all positions, in the
  words of the contract of \<open>mse\<close>: in the arithmetic of the scalars, and in exact
  arithmetic on real numbers.
\<close>

definition squared_difference_at :: "float64 list \<Rightarrow> float64 list \<Rightarrow> nat \<Rightarrow> float64" where
  "squared_difference_at xs ys i = (let d = fsub (xs ! i) (ys ! i) in fmul d d)"

definition mean_squared_difference :: "float64 list \<Rightarrow> float64 list \<Rightarrow> float64" where
  "mean_squared_difference xs ys =
     fdiv (fsum (map (squared_difference_at xs ys) [0..<length xs])) (Fin (real (length xs)))"

definition exact_mean_squared_difference :: "real list \<Rightarrow> real list \<Rightarrow> real" where
  "exact_mean_squared_difference xs ys =
     (\<Sum>i<length xs. (xs ! i - ys ! i)\<^sup>2) / real (length xs)"

text \<open>The list of squared differences as \<open>np.square(X - Y)\<close> computes it.\<close>

definition sq_diffs :: "float64 list \<Rightarrow> float64 list \<Rightarrow> float64 list" where
  "sq_diffs xs ys = map (\<lambda>d. fmul d d) (map2 fsub xs ys)"

text \<open>The denominator of \<open>nrmse\<close> for a lower-cased mode, computed from an array.\<close>

definition denominator :: "string \<Rightarrow> ndarray \<Rightarrow> error + float64" where
  "denominator mode R =
     (if mode = ''euclidean'' then Inr (fsqrt (mean (square R)))
      else if mode = ''min-max'' then
        (case amax R of
           Inl e \<Rightarrow> Inl e
         | Inr mx \<Rightarrow> (case amin R of Inl e \<Rightarrow> Inl e | Inr mn \<Rightarrow> Inr (fsub mx mn)))
      else if mode = ''mean'' then Inr (mean R)
      else Inl (ValueError msg_norm_type))"

text \<open>A scalar between two numbers, by the comparisons of the scalars.\<close>

definition in_range :: "real \<Rightarrow> real \<Rightarrow> float64 \<Rightarrow> bool" where
  "in_range lo hi x = (fle (Fin lo) x \<and> fle x (Fin hi))"

text \<open>The 8-bit scenario of the specification, and arrays that do not match it.\<close>

definition img_R :: ndarray where
  "img_R = \<lparr>dtype = UInt8, shape = [2, 2], elems = [Fin 0, Fin 2, Fin 2, Fin 0]\<rparr>"

definition img_T :: ndarray where
  "img_T = \<lparr>dtype = UInt8, shape = [2, 2], elems = [Fin 0, Fin 0, Fin 0, Fin 0]\<rparr>"

definition img_F :: ndarray where
  "img_F = \<lparr>dtype = Float64, shape = [2, 2], elems = [Fin 0, Fin 0, Fin 0, Fin 0]\<rparr>"

definition img_S :: ndarray where
  "img_S = \<lparr>dtype = UInt8, shape = [4], elems = [Fin 0, Fin 0, Fin 0, Fin 0]\<rparr>"

text \<open>
  An 8-bit array holding 300 (the out-of-range scenario of the specification), a test image
  for it, an array of an element type without table entry, and an array without elements.
\<close>

definition img_300 :: ndarray where
  "img_300 = \<lparr>dtype = UInt8, shape = [1], elems = [Fin 300]\<rparr>"

definition img_290 :: ndarray where
  "img_290 = \<lparr>dtype = UInt8, shape = [1], elems = [Fin 290]\<rparr>"

definition img_H :: ndarray where
  "img_H = \<lparr>dtype = Float16, shape = [1], elems = [Fin 0]\<rparr>"

definition img_E :: ndarray where
  "img_E = \<lparr>dtype = Float64, shape = [0], elems = []\<rparr>"

text \<open>A signed 8-bit array with a negative element, and a test image for it.\<close>

definition img_N :: ndarray where
  "img_N = \<lparr>dtype = Int8, shape = [2], elems = [Fin (- 1), Fin 1]\<rparr>"

definition img_Z :: ndarray where
  "img_Z = \<lparr>dtype = Int8, shape = [2], elems = [Fin 0, Fin 0]\<rparr>"

text \<open>
  Unsigned 64-bit arrays holding \<open>2\<^sup>5\<^sup>3 + 1\<close> and \<open>2\<^sup>5\<^sup>3\<close>: the promotion to binary64 rounds
  the first to the second.
\<close>

definition img_U1 :: ndarray where
  "img_U1 = \<lparr>dtype = UInt64, shape = [1], elems = [Fin 9007199254740993]\<rparr>"

definition img_U0 :: ndarray where
  "img_U0 = \<lparr>dtype = UInt64, shape = [1], elems = [Fin 9007199254740992]\<rparr>"

definition img_U :: ndarray where
  "img_U = \<lparr>dtype = UInt64, shape = [2],
            elems = [Fin 9007199254740993, Fin 9007199254740992]\<rparr>"

text \<open>
  An instance of the parameter \<open>dtype_range\<close> for the examples, with the entries the
  specification mentions: 8-bit unsigned, 8-bit signed, and floating point in \<open>[-1, 1]\<close>.
\<close>

definition example_table :: dtype_table where
  "example_table t =
     (if t = UInt8 then Some (0, 255)
      else if t = Int8 then Some (- 128, 127)
      else if t = Float64 then Some (- 1, 1)
      else None)"

section \<open>Properties\<close>

subsection \<open>Rounding to binary64\<close>

lemma round_half_even_of_int: "round_half_even (of_int k) = k"
  by (simp add: round_half_even_def)

lemma round_half_even_nonneg: "0 \<le> q \<Longrightarrow> 0 \<le> round_half_even q"
  by (auto simp: round_half_even_def Let_def)

lemma round_float64_0: "round_float64 0 = Fin 0"
  by (simp add: round_float64_def)

lemma fneg_fneg: "fneg (fneg z) = z"
  by (cases z) simp_all

lemma round_float64_minus: "round_float64 (- x) = fneg (round_float64 x)"
  by (simp add: round_float64_def fneg_fneg)

lemma round_pos_cases: "0 < x \<Longrightarrow> round_pos x = PInf \<or> (\<exists>r\<ge>0. round_pos x = Fin r)"
  by (auto simp: round_pos_def Let_def round_half_even_nonneg)

lemma round_float64_nonneg:
  "0 \<le> x \<Longrightarrow> round_float64 x = PInf \<or> (\<exists>r\<ge>0. round_float64 x = Fin r)"
  using round_pos_cases [of x] by (cases "x = 0") (auto simp: round_float64_def)

lemma round_float64_not_NaN: "round_float64 x \<noteq> NaN"
proof (cases "0 \<le> x")
  case True
  with round_float64_nonneg [of x] show ?thesis by auto
next
  case False
  then have "0 \<le> - x" by simp
  from round_float64_nonneg [OF this] show ?thesis
    unfolding round_float64_minus by (cases "round_float64 x") auto
qed

lemma round_pos_exact:
  assumes "0 < x" "x < 2 ^ 1024" "x = of_int k * 2 powr of_int (ulp_exponent x)"
  shows "round_pos x = Fin x"
proof -
  let ?u = "(2::real) powr of_int (ulp_exponent x)"
  have u: "0 < ?u" by simp
  from assms(3) have "x / ?u = of_int k" using u by (simp add: field_simps)
  then have "of_int (round_half_even (x / ?u)) * ?u = x"
    using assms(3) by (simp add: round_half_even_of_int)
  then show ?thesis
    using assms(2) by (simp add: round_pos_def Let_def)
qed

lemma ulp_exponent_eq:
  assumes "2 powr of_int e \<le> x" "x < 2 powr of_int (e + 1)" "- 1022 \<le> e"
  shows "ulp_exponent x = e - 52"
proof -
  have "0 < x" using assms(1) by (smt (verit) powr_gt_zero)
  then have "\<lfloor>log 2 x\<rfloor> = e"
    using assms(1,2) by (simp add: floor_log_eq_powr_iff)
  then show ?thesis using assms(3) by (simp add: ulp_exponent_def)
qed

lemma round_nat_exact:
  assumes "n \<le> 2 ^ 53"
  shows "round_float64 (real n) = Fin (real n)"
proof (cases "n = 0")
  case True then show ?thesis by (simp add: round_float64_0)
next
  case False
  then have pos: "0 < real n" by simp
  define e where "e = \<lfloor>log 2 (real n)\<rfloor>"
  have e: "2 powr of_int e \<le> real n" "real n < 2 powr of_int (e + 1)"
    using floor_log_eq_powr_iff [of "real n" 2 e] pos by (simp_all add: e_def)
  have "1 \<le> real n" using False by simp
  then have e0: "0 \<le> e" by (simp add: e_def)
  have n53: "real n \<le> 2 ^ 53" using assms
    by (metis of_nat_le_iff of_nat_numeral of_nat_power)
  have p53: "(2::real) powr of_int (53::int) = 2 ^ 53"
    using powr_realpow [of "2::real" 53] by simp
  from e(1) n53 p53 have "(2::real) powr of_int e \<le> 2 powr of_int (53::int)" by linarith
  then have "(of_int e :: real) \<le> of_int (53::int)"
    by (subst (asm) powr_le_cancel_iff) simp_all
  then have e53: "e \<le> 53" by linarith
  have ulp: "ulp_exponent (real n) = e - 52"
    using ulp_exponent_eq [OF e] e0 by simp
  have lt: "real n < 2 ^ 1024"
  proof -
    note n53
    also have "(2::real) ^ 53 < 2 ^ 1024" by (rule power_strict_increasing) simp_all
    finally show ?thesis .
  qed
  have "\<exists>k::int. real n = of_int k * 2 powr of_int (e - 52)"
  proof (cases "e \<le> 52")
    case True
    define m where "m = nat (52 - e)"
    have m: "(of_int (e - 52) :: real) = - real m" using True by (simp add: m_def)
    have "(2::real) powr of_int (e - 52) = 1 / 2 ^ m"
      unfolding m by (simp add: powr_minus powr_realpow field_simps)
    then have "real n = of_int (int n * 2 ^ m) * 2 powr of_int (e - 52)"
      by simp
    then show ?thesis by blast
  next
    case False
    with e53 have e_eq: "e = 53" by simp
    with e(1) p53 have "2 ^ 53 \<le> real n" by simp
    with n53 have "real n = 2 ^ 53" by simp
    moreover have "(2::real) ^ 53 = of_int (2 ^ 52) * 2 powr of_int (53 - 52)"
      by simp
    ultimately show ?thesis using e_eq by metis
  qed
  then obtain k :: int where "real n = of_int k * 2 powr of_int (ulp_exponent (real n))"
    using ulp by auto
  from round_pos_exact [OF pos lt this] pos show ?thesis
    by (simp add: round_float64_def)
qed

lemma round_int_exact:
  assumes "\<bar>k\<bar> \<le> 2 ^ 53"
  shows "round_float64 (of_int k) = Fin (of_int k)"
proof (cases "0 \<le> k")
  case True
  then have "nat k \<le> 2 ^ 53" using assms by (simp add: nat_le_iff)
  from round_nat_exact [OF this] True show ?thesis by simp
next
  case False
  then have "nat (- k) \<le> 2 ^ 53" using assms by (simp add: nat_le_iff)
  from round_nat_exact [OF this] False
  have "round_float64 (of_int (- k)) = Fin (of_int (- k))" by simp
  then have "fneg (round_float64 (of_int k)) = Fin (- of_int k)"
    by (simp add: round_float64_minus)
  then show ?thesis by (cases "round_float64 (of_int k)") simp_all
qed

lemma round_numeral: "numeral w \<le> (2::nat) ^ 53 \<Longrightarrow> round_float64 (numeral w) = Fin (numeral w)"
  using round_nat_exact [of "numeral w"] by simp

lemma round_1: "round_float64 1 = Fin 1"
  using round_nat_exact [of 1] by simp

lemma round_neg_numeral:
  "numeral w \<le> (2::nat) ^ 53 \<Longrightarrow> round_float64 (- numeral w) = Fin (- numeral w)"
  by (simp add: round_float64_minus round_numeral)

lemma round_neg_1: "round_float64 (- 1) = Fin (- 1)"
  by (simp add: round_float64_minus round_1)

lemmas round_small = round_float64_0 round_1 round_neg_1 round_numeral round_neg_numeral

lemma round_2_53_plus_1: "round_float64 9007199254740993 = Fin 9007199254740992"
proof -
  let ?x = "9007199254740993 :: real"
  have "2 powr of_int (53::int) \<le> ?x" "?x < 2 powr of_int (53 + 1 :: int)"
    using powr_realpow [of "2::real" 53] powr_realpow [of "2::real" 54] by simp_all
  from ulp_exponent_eq [OF this] have u: "ulp_exponent ?x = 1" by simp
  have "\<lfloor>?x / 2\<rfloor> = 4503599627370496" by (simp add: floor_eq_iff)
  then have "round_half_even (?x / 2) = 4503599627370496"
    by (simp add: round_half_even_def Let_def)
  then show ?thesis
    by (simp add: round_float64_def round_pos_def u Let_def)
qed

lemma round_2_1024: "round_float64 (2 ^ 1024) = PInf"
proof -
  let ?x = "(2::real) ^ 1024"
  have p: "(2::real) powr of_int (1024::int) = 2 ^ 1024"
      "(2::real) powr of_int (1024 + 1 :: int) = 2 ^ 1025"
      "(2::real) powr of_int (972::int) = 2 ^ 972"
    using powr_realpow [of "2::real" 1024] powr_realpow [of "2::real" 1025]
      powr_realpow [of "2::real" 972] by simp_all
  have "2 powr of_int (1024::int) \<le> ?x" "?x < 2 powr of_int (1024 + 1 :: int)"
    unfolding p by simp_all
  from ulp_exponent_eq [OF this] have u: "ulp_exponent ?x = 972" by simp
  have "?x / 2 ^ 972 = of_int (2 ^ 52)"
    by simp
  then have "round_half_even (?x / 2 ^ 972) = 2 ^ 52"
    by (simp only: round_half_even_of_int)
  then have "of_int (round_half_even (?x / 2 ^ 972)) * (2::real) ^ 972 = 2 ^ 1024"
    by simp
  then show ?thesis
    by (simp add: round_float64_def round_pos_def u p(3) Let_def del: power_numeral)
qed




subsection \<open>Compatibility check and promotion\<close>

lemma assert_compatible_Inr:
  "dtype X = dtype Y \<Longrightarrow> shape X = shape Y \<Longrightarrow> assert_compatible X Y = Inr ()"
  by (simp add: assert_compatible_def)

lemma assert_compatible_Inl:
  "dtype X \<noteq> dtype Y \<or> shape X \<noteq> shape Y \<Longrightarrow>
   \<exists>e. assert_compatible X Y = Inl e \<and> IncompatibleInputsError e"
  by (auto simp: assert_compatible_def IncompatibleInputsError_def)

lemma as_floats_promoted: "as_floats X Y = (promoted X, promoted Y)"
  by (simp add: as_floats_def promoted_def Let_def)

lemma promoted_fields:
  "dtype (promoted X) = Float64" "shape (promoted X) = shape X"
  "length (elems (promoted X)) = length (elems X)"
  by (simp_all add: promoted_def astype_float64_def)

lemma promoted_idem: "promoted (promoted X) = promoted X"
  by (simp add: promoted_def astype_float64_def)

subsection \<open>\<open>mse\<close>\<close>

lemma mse_compatible:
  assumes "dtype X = dtype Y" "shape X = shape Y"
  shows "mse X Y = Inr (fdiv (fsum (sq_diffs (elems (promoted X)) (elems (promoted Y))))
                         (Fin (real (length (sq_diffs (elems (promoted X))
                                                      (elems (promoted Y)))))))"
  using assms
  by (simp add: mse_def assert_compatible_def as_floats_promoted mean_def square_def
      arr_sub_def sq_diffs_def)

lemma mse_as_floats:
  assumes "dtype X = dtype Y" "shape X = shape Y"
  shows "mse (promoted X) (promoted Y) = mse X Y"
  by (simp add: mse_compatible assms promoted_fields promoted_idem)

lemma mse_incompatible:
  "assert_compatible X Y = Inl e \<Longrightarrow> mse X Y = Inl e"
  by (simp add: mse_def)

lemma mse_returns:
  "dtype X = dtype Y \<Longrightarrow> shape X = shape Y \<Longrightarrow> \<exists>v. mse X Y = Inr v"
  by (simp add: mse_compatible)

lemma fadd_fneg: "fadd (fneg x) (fneg y) = fneg (fadd x y)"
proof (cases x; cases y)
  fix a b assume "x = Fin a" "y = Fin b"
  then show ?thesis
    using round_float64_minus [of "a + b"] by simp
qed simp_all

lemma fsub_swap: "fsub x y = fneg (fsub y x)"
proof -
  have "fsub y x = fadd (fneg x) y"
    by (cases x; cases y) (simp_all add: fsub_def add.commute)
  then have "fneg (fsub y x) = fadd (fneg (fneg x)) (fneg y)"
    by (simp add: fadd_fneg)
  then show ?thesis by (simp add: fsub_def fneg_fneg)
qed

lemma fmul_fneg_fneg: "fmul (fneg z) (fneg z) = fmul z z"
  by (cases z) simp_all

lemma sq_diffs_commute: "sq_diffs xs ys = sq_diffs ys xs"
proof (induction xs arbitrary: ys)
  case Nil
  then show ?case by (simp add: sq_diffs_def)
next
  case (Cons x xs)
  show ?case
  proof (cases ys)
    case Nil
    then show ?thesis by (simp add: sq_diffs_def)
  next
    case (Cons y ys')
    have "fmul (fsub x y) (fsub x y) = fmul (fsub y x) (fsub y x)"
      using fsub_swap [of x y] by (simp add: fmul_fneg_fneg)
    with Cons.IH [of ys'] Cons show ?thesis
      by (simp add: sq_diffs_def)
  qed
qed

lemma mse_img_R_img_T: "mse img_R img_T = Inr (Fin 2)"
  by (simp add: mse_def assert_compatible_def as_floats_def astype_float64_def Let_def img_R_def
      img_T_def mean_def square_def arr_sub_def fsum_def fsub_def round_small)

lemma sq_diffs_positions:
  assumes "length xs = length ys"
  shows "sq_diffs xs ys = map (squared_difference_at xs ys) [0..<length xs]"
  using assms
  by (intro nth_equalityI) (simp_all add: sq_diffs_def squared_difference_at_def Let_def)

lemma sq_diffs_length: "length xs = length ys \<Longrightarrow> length (sq_diffs xs ys) = length xs"
  by (simp add: sq_diffs_def)

lemma int_abs_le_square: "\<bar>z\<bar> \<le> z\<^sup>2" for z :: int
proof (cases "z = 0")
  case True then show ?thesis by simp
next
  case False
  then have "1 \<le> \<bar>z\<bar>" by simp
  then have "\<bar>z\<bar> * 1 \<le> \<bar>z\<bar> * \<bar>z\<bar>" by (intro mult_left_mono) simp_all
  then show ?thesis by (simp add: power2_eq_square abs_mult_self_eq)
qed

lemma squared_difference_int:
  assumes "\<bar>x\<bar> \<le> B" "\<bar>y\<bar> \<le> B" "(2 * B)\<^sup>2 \<le> 2 ^ 53"
  shows "fmul (fsub (Fin (of_int x)) (Fin (of_int y))) (fsub (Fin (of_int x)) (Fin (of_int y)))
         = Fin (of_int ((x - y)\<^sup>2))"
    and "0 \<le> (x - y)\<^sup>2" and "(x - y)\<^sup>2 \<le> (2 * B)\<^sup>2"
proof -
  have d: "\<bar>x - y\<bar> \<le> 2 * B" using assms(1,2) by linarith
  then have "\<bar>x - y\<bar>\<^sup>2 \<le> (2 * B)\<^sup>2"
    by (intro power_mono) simp_all
  then show sq: "(x - y)\<^sup>2 \<le> (2 * B)\<^sup>2" by simp
  show "0 \<le> (x - y)\<^sup>2" by simp
  from int_abs_le_square [of "x - y"] sq assms(3) have "\<bar>x - y\<bar> \<le> 2 ^ 53" by linarith
  from round_int_exact [OF this]
  have sub: "fsub (Fin (of_int x)) (Fin (of_int y)) = Fin (of_int (x - y))"
    by (simp add: fsub_def)
  have "\<bar>(x - y)\<^sup>2\<bar> \<le> 2 ^ 53" using sq assms(3) by simp
  from round_int_exact [OF this]
  show "fmul (fsub (Fin (of_int x)) (Fin (of_int y))) (fsub (Fin (of_int x)) (Fin (of_int y)))
         = Fin (of_int ((x - y)\<^sup>2))"
    by (simp add: sub power2_eq_square)
qed

lemma sq_diffs_int:
  assumes "\<forall>k\<in>set xs. \<bar>k\<bar> \<le> B" "\<forall>k\<in>set ys. \<bar>k\<bar> \<le> B" "(2 * B)\<^sup>2 \<le> 2 ^ 53"
  shows "sq_diffs (map (\<lambda>k. Fin (of_int k)) xs) (map (\<lambda>k. Fin (of_int k)) ys)
         = map (\<lambda>k. Fin (of_int k)) (map2 (\<lambda>x y. (x - y)\<^sup>2) xs ys)"
  using assms(1,2)
proof (induction xs arbitrary: ys)
  case Nil
  then show ?case by (simp add: sq_diffs_def)
next
  case (Cons x xs)
  show ?case
  proof (cases ys)
    case Nil
    then show ?thesis by (simp add: sq_diffs_def)
  next
    case (Cons y ys')
    with Cons.prems have b: "\<bar>x\<bar> \<le> B" "\<bar>y\<bar> \<le> B"
      and r: "\<forall>k\<in>set xs. \<bar>k\<bar> \<le> B" "\<forall>k\<in>set ys'. \<bar>k\<bar> \<le> B"
      by simp_all
    from Cons.IH [OF r] squared_difference_int(1) [OF b assms(3)] Cons show ?thesis
      by (simp add: sq_diffs_def)
  qed
qed

lemma foldl_fadd_int:
  assumes "\<forall>d\<in>set ds. 0 \<le> d \<and> d \<le> M" "0 \<le> acc"
    and "acc + int (length ds) * M \<le> 2 ^ 53"
  shows "foldl fadd (Fin (of_int acc)) (map (\<lambda>k. Fin (of_int k)) ds)
         = Fin (of_int (acc + sum_list ds))"
  using assms
proof (induction ds arbitrary: acc)
  case Nil
  then show ?case by simp
next
  case (Cons d ds)
  from Cons.prems have d: "0 \<le> d" "d \<le> M" and r: "\<forall>d\<in>set ds. 0 \<le> d \<and> d \<le> M"
    by simp_all
  have M0: "0 \<le> int (length ds) * M" using d by simp
  from Cons.prems(3) have b: "acc + M + int (length ds) * M \<le> 2 ^ 53"
    by (simp add: algebra_simps)
  with d M0 Cons.prems(2) have "\<bar>acc + d\<bar> \<le> 2 ^ 53" by linarith
  from round_int_exact [OF this]
  have step: "fadd (Fin (of_int acc)) (Fin (of_int d)) = Fin (of_int (acc + d))"
    by simp
  have "acc + d + int (length ds) * M \<le> 2 ^ 53" using b d by linarith
  from Cons.IH [OF r _ this] d Cons.prems(2) step show ?case
    by (simp add: add.assoc)
qed

lemma sum_list_map2_index:
  assumes "length xs = length ys"
  shows "real_of_int (sum_list (map2 (\<lambda>x y. (x - y)\<^sup>2) xs ys))
         = (\<Sum>i<length xs. (map of_int xs ! i - map of_int ys ! i)\<^sup>2)"
proof -
  have "map2 (\<lambda>x y. (x - y)\<^sup>2) xs ys = map (\<lambda>i. (xs ! i - ys ! i)\<^sup>2) [0..<length xs]"
    using assms by (intro nth_equalityI) simp_all
  then have "sum_list (map2 (\<lambda>x y. (x - y)\<^sup>2) xs ys) = (\<Sum>i<length xs. (xs ! i - ys ! i)\<^sup>2)"
    by (simp add: interv_sum_list_conv_sum_set_nat atLeast0LessThan)
  then show ?thesis using assms by simp
qed

lemma promoted_int_elems:
  assumes "elems X = map (\<lambda>k. Fin (of_int k)) xs" "\<forall>k\<in>set xs. \<bar>k\<bar> \<le> 2 ^ 53"
  shows "elems (promoted X) = map (\<lambda>k. Fin (of_int k)) xs"
  using assms by (simp add: promoted_def astype_float64_def round_int_exact)

lemma mse_int:
  assumes "dtype X = dtype Y" "shape X = shape Y"
    and "elems X = map (\<lambda>k. Fin (of_int k)) xs" "elems Y = map (\<lambda>k. Fin (of_int k)) ys"
    and "length xs = length ys" "xs \<noteq> []"
    and "\<forall>k\<in>set xs. \<bar>k\<bar> \<le> B" "\<forall>k\<in>set ys. \<bar>k\<bar> \<le> B"
    and "int (length xs) * (2 * B)\<^sup>2 \<le> 2 ^ 53"
  shows "mse X Y = Inr (round_float64
           (exact_mean_squared_difference (map of_int xs) (map of_int ys)))"
proof -
  let ?M = "(2 * B)\<^sup>2"
  let ?ds = "map2 (\<lambda>x y. (x - y)\<^sup>2) xs ys"
  have n: "1 \<le> int (length xs)" using assms(6) by (cases xs) simp_all
  have M0: "0 \<le> ?M" by simp
  from n M0 have "?M \<le> int (length xs) * ?M"
    using mult_right_mono [of 1 "int (length xs)" ?M] by simp
  with assms(9) have M: "?M \<le> 2 ^ 53" by linarith
  have B: "\<bar>k\<bar> \<le> 2 ^ 53" if "\<bar>k\<bar> \<le> B" for k
  proof -
    have "0 \<le> B" using that by linarith
    then have "B \<le> \<bar>2 * B\<bar>" by simp
    also have "\<dots> \<le> ?M" by (rule int_abs_le_square)
    finally show ?thesis using that M by linarith
  qed
  have px: "elems (promoted X) = map (\<lambda>k. Fin (of_int k)) xs"
    using assms(3,7) B by (intro promoted_int_elems) auto
  have py: "elems (promoted Y) = map (\<lambda>k. Fin (of_int k)) ys"
    using assms(4,8) B by (intro promoted_int_elems) auto
  have sq: "sq_diffs (elems (promoted X)) (elems (promoted Y)) = map (\<lambda>k. Fin (of_int k)) ?ds"
    unfolding px py by (rule sq_diffs_int [OF assms(7,8) M])
  have ds: "\<forall>d\<in>set ?ds. 0 \<le> d \<and> d \<le> ?M"
  proof
    fix d assume "d \<in> set ?ds"
    then obtain x y where "(x, y) \<in> set (zip xs ys)" "d = (x - y)\<^sup>2" by auto
    moreover from this(1) have "x \<in> set xs" "y \<in> set ys"
      by (auto dest: set_zip_leftD set_zip_rightD)
    ultimately show "0 \<le> d \<and> d \<le> ?M"
      using squared_difference_int(2,3) [of x B y] assms(7,8) M by simp
  qed
  have len: "length ?ds = length xs" using assms(5) by simp
  have bnd: "0 + int (length ?ds) * ?M \<le> 2 ^ 53"
    using assms(9) by (simp only: len add_0)
  have "foldl fadd (Fin (of_int 0)) (map (\<lambda>k. Fin (of_int k)) ?ds)
        = Fin (of_int (0 + sum_list ?ds))"
    by (rule foldl_fadd_int [OF ds _ bnd]) simp
  then have sum: "fsum (map (\<lambda>k. Fin (of_int k)) ?ds) = Fin (of_int (sum_list ?ds))"
    by (simp add: fsum_def)
  have len': "length (map (\<lambda>k. Fin (real_of_int k)) ?ds) = length xs"
    using assms(5) by simp
  have "mse X Y = Inr (fdiv (fsum (map (\<lambda>k. Fin (of_int k)) ?ds))
                         (Fin (real (length (map (\<lambda>k. Fin (real_of_int k)) ?ds)))))"
    unfolding mse_compatible [OF assms(1,2)] sq ..
  then have "mse X Y = Inr (fdiv (Fin (of_int (sum_list ?ds))) (Fin (real (length xs))))"
    unfolding sum len' .
  also have "fdiv (Fin (of_int (sum_list ?ds))) (Fin (real (length xs)))
      = round_float64 (real_of_int (sum_list ?ds) / real (length xs))"
    using assms(6) by simp
  finally show ?thesis
    by (simp add: exact_mean_squared_difference_def sum_list_map2_index [OF assms(5)])
qed

lemma exact_msd_img_R_img_T:
  "exact_mean_squared_difference (map of_int [0, 2, 2, 0]) (map of_int [0, 0, 0, 0]) = 2"
  by (simp add: exact_mean_squared_difference_def lessThan_Suc)

lemma mse_img_U1_img_U0: "mse img_U1 img_U0 = Inr (Fin 0)"
  by (simp add: mse_def assert_compatible_def as_floats_def astype_float64_def Let_def
      img_U1_def img_U0_def mean_def square_def arr_sub_def fsum_def fsub_def
      round_2_53_plus_1 round_small)

text \<open>
  Claim C1, as amended. For two arrays of one element type and one shape, \<open>mse\<close> returns
  a scalar: the mean over all element positions \<open>i\<close> of the squared difference of the
  elements at \<open>i\<close>, taken on the arrays converted to binary64 and with the subtraction,
  the squaring, the sum and the division of the scalars, each rounded to binary64. When
  the elements are integers of magnitude at most \<open>B\<close> and \<open>n * (2 * B)\<^sup>2 \<le> 2\<^sup>5\<^sup>3\<close> for the
  number \<open>n \<ge> 1\<close> of elements, no step before the division rounds, in whatever order the
  squares are added, and the scalar is the exact mean \<open>(\<Sum>i<n. (x\<^sub>i - y\<^sub>i)\<^sup>2) / n\<close>
  rounded once.
\<close>

theorem mse_float64_mean_squared_difference:
  assumes "dtype X = dtype Y" and "shape X = shape Y"
    and "valid_array X" and "valid_array Y"
  shows "mse X Y = Inr (mean_squared_difference (elems (promoted X)) (elems (promoted Y))) \<and>
    (\<forall>xs ys B. elems X = map (\<lambda>k. Fin (of_int k)) xs \<and> elems Y = map (\<lambda>k. Fin (of_int k)) ys
        \<and> xs \<noteq> [] \<and> (\<forall>k\<in>set xs. \<bar>k\<bar> \<le> B) \<and> (\<forall>k\<in>set ys. \<bar>k\<bar> \<le> B)
        \<and> int (length xs) * (2 * B)\<^sup>2 \<le> 2 ^ 53 \<longrightarrow>
       mse X Y = Inr (round_float64
         (exact_mean_squared_difference (map of_int xs) (map of_int ys))))"
proof -
  have len: "length (elems X) = length (elems Y)"
    using assms by (simp add: valid_array_def)
  then have plen: "length (elems (promoted X)) = length (elems (promoted Y))"
    by (simp add: promoted_fields)
  have general: "mse X Y = Inr (mean_squared_difference (elems (promoted X)) (elems (promoted Y)))"
    unfolding mse_compatible [OF assms(1,2)] mean_squared_difference_def
      sq_diffs_length [OF plen] sq_diffs_positions [OF plen] by simp
  have exact: "mse X Y = Inr (round_float64
      (exact_mean_squared_difference (map of_int xs) (map of_int ys)))"
    if "elems X = map (\<lambda>k. Fin (of_int k)) xs" "elems Y = map (\<lambda>k. Fin (of_int k)) ys"
      "xs \<noteq> []" "\<forall>k\<in>set xs. \<bar>k\<bar> \<le> B" "\<forall>k\<in>set ys. \<bar>k\<bar> \<le> B"
      "int (length xs) * (2 * B)\<^sup>2 \<le> 2 ^ 53" for xs ys B
  proof -
    from len that(1,2) have "length xs = length ys" by simp
    with assms(1,2) that show ?thesis by (intro mse_int) simp_all
  qed
  from general exact show ?thesis by blast
qed

theorem mse_float64_mean_squared_difference_witness:
  "dtype img_R = dtype img_T \<and> shape img_R = shape img_T \<and> valid_array img_R \<and> valid_array img_T
   \<and> elems img_R = map (\<lambda>k. Fin (of_int k)) [0, 2, 2, 0]
   \<and> elems img_T = map (\<lambda>k. Fin (of_int k)) [0, 0, 0, 0]
   \<and> int (length [0, 2, 2, 0 :: int]) * (2 * 2)\<^sup>2 \<le> 2 ^ 53
   \<and> mse img_R img_T = Inr (mean_squared_difference (elems (promoted img_R))
                                                      (elems (promoted img_T)))
   \<and> mse img_R img_T = Inr (round_float64
        (exact_mean_squared_difference (map of_int [0, 2, 2, 0]) (map of_int [0, 0, 0, 0])))
   \<and> mse img_R img_T = Inr (Fin 2)"
proof -
  have h: "dtype img_R = dtype img_T" "shape img_R = shape img_T"
      "valid_array img_R" "valid_array img_T"
    by (simp_all add: img_R_def img_T_def valid_array_def)
  have e: "elems img_R = map (\<lambda>k. Fin (of_int k)) [0, 2, 2, 0]"
      "elems img_T = map (\<lambda>k. Fin (of_int k)) [0, 0, 0, 0]"
    by (simp_all add: img_R_def img_T_def)
  have b: "[0, 2, 2, 0 :: int] \<noteq> []" "\<forall>k\<in>set [0, 2, 2, 0 :: int]. \<bar>k\<bar> \<le> 2"
      "\<forall>k\<in>set [0, 0, 0, 0 :: int]. \<bar>k\<bar> \<le> 2"
      "int (length [0, 2, 2, 0 :: int]) * (2 * 2)\<^sup>2 \<le> 2 ^ 53"
    by simp_all
  note inst = mse_float64_mean_squared_difference [OF h]
  have a: "mse img_R img_T = Inr (mean_squared_difference (elems (promoted img_R))
                                                            (elems (promoted img_T)))"
    by (rule inst [THEN conjunct1])
  have x: "mse img_R img_T = Inr (round_float64
        (exact_mean_squared_difference (map of_int [0, 2, 2, 0]) (map of_int [0, 0, 0, 0])))"
    using inst [THEN conjunct2, rule_format, of "[0, 2, 2, 0]" "[0, 0, 0, 0]" 2] e b by blast
  from h e b(4) a x mse_img_R_img_T show ?thesis by blast
qed

text \<open>
  Claim C1 as stated gives the arithmetic mean of the squared differences of the elements
  themselves. For the 64-bit integers \<open>2\<^sup>5\<^sup>3 + 1\<close> and \<open>2\<^sup>5\<^sup>3\<close> that mean is 1, and \<open>mse\<close>
  returns 0: the conversion to binary64 rounds both to \<open>2\<^sup>5\<^sup>3\<close>.
\<close>

theorem mse_exact_mean_counterexample:
  "dtype img_U1 = dtype img_U0 \<and> shape img_U1 = shape img_U0
   \<and> elems img_U1 = [Fin 9007199254740993] \<and> elems img_U0 = [Fin 9007199254740992]
   \<and> exact_mean_squared_difference [9007199254740993] [9007199254740992] = 1
   \<and> mse img_U1 img_U0 = Inr (Fin 0)"
  using mse_img_U1_img_U0
  by (simp add: img_U1_def img_U0_def exact_mean_squared_difference_def)

text \<open>
  Claim C9. For two arrays of one element type and one shape, \<open>mse\<close> returns the same
  scalar whichever of the two comes first.
\<close>

theorem mse_symmetric:
  assumes "dtype X = dtype Y" and "shape X = shape Y"
  shows "\<exists>v. mse X Y = Inr v \<and> mse Y X = Inr v"
  using assms by (simp add: mse_compatible sq_diffs_commute [of "elems (promoted X)"])

theorem mse_symmetric_witness:
  "dtype img_R = dtype img_T \<and> shape img_R = shape img_T
   \<and> mse img_R img_T = Inr (Fin 2) \<and> mse img_T img_R = Inr (Fin 2)"
proof -
  have h: "dtype img_R = dtype img_T" "shape img_R = shape img_T"
    by (simp_all add: img_R_def img_T_def)
  from mse_symmetric [OF h] obtain v
    where "mse img_R img_T = Inr v" "mse img_T img_R = Inr v" by blast
  with mse_img_R_img_T h show ?thesis by simp
qed

subsection \<open>\<open>nrmse\<close> and \<open>psnr\<close> unfolded\<close>

lemma map2_same: "map2 f xs xs = map (\<lambda>x. f x x) xs"
  by (induction xs) simp_all

lemma mean_arr_mul: "mean (arr_mul X X) = mean (square X)"
  by (simp add: mean_def arr_mul_def square_def map2_same)

lemma nrmse_incompatible:
  "assert_compatible X Y = Inl e \<Longrightarrow> nrmse X Y m = Inl e"
  by (simp add: nrmse_def)

lemma psnr_incompatible:
  "assert_compatible X Y = Inl e \<Longrightarrow> psnr tbl X Y dr = Inl e"
  by (simp add: psnr_def)

lemma nrmse_compatible:
  assumes "dtype X = dtype Y" "shape X = shape Y"
  shows "nrmse X Y m =
     (case denominator (lower m) (promoted X) of
        Inl e \<Rightarrow> Inl e
      | Inr d \<Rightarrow> (case mse X Y of Inl e \<Rightarrow> Inl e | Inr v \<Rightarrow> Inr (fdiv (fsqrt v) d)))"
  by (simp add: nrmse_def assert_compatible_Inr [OF assms] as_floats_promoted
      mse_as_floats [OF assms] Let_def denominator_def mean_arr_mul cong: sum.case_cong)

lemma psnr_supplied:
  assumes "dtype R = dtype T" "shape R = shape T" "mse R T = Inr m"
  shows "psnr tbl R T (Some d) =
     (case power2 FromCaller d of
        Inl e \<Rightarrow> Inl e
      | Inr sq \<Rightarrow> Inr (fmul (Fin 10) (flog10 (fdiv sq m))))"
  by (simp add: psnr_def assert_compatible_Inr [OF assms(1,2)] as_floats_promoted
      mse_as_floats [OF assms(1,2)] assms(3))

lemma psnr_inferred:
  assumes "dtype R = dtype T" "shape R = shape T" "mse R T = Inr m"
  shows "psnr tbl R T None =
     (case infer_dynamic_range tbl R of
        Inl e \<Rightarrow> Inl e
      | Inr d \<Rightarrow> Inr (fmul (Fin 10) (flog10 (fdiv (fmul d d) m))))"
  by (simp add: psnr_def assert_compatible_Inr [OF assms(1,2)] as_floats_promoted
      mse_as_floats [OF assms(1,2)] assms(3) power2_def split: sum.splits)

subsection \<open>Errors\<close>

text \<open>
  Claim C4. When the element types or the shapes of the two arrays differ, \<open>mse\<close>,
  \<open>nrmse\<close> and \<open>psnr\<close> all fail with the error of \<open>_assert_compatible\<close>, an
  \<open>IncompatibleInputsError\<close>. The check comes first: the failure is the same whatever
  the elements of the arrays, the normalization mode, the range table and the dynamic range
  are.
\<close>

theorem incompatible_inputs_rejected:
  assumes "dtype X \<noteq> dtype Y \<or> shape X \<noteq> shape Y"
  shows "\<exists>e. IncompatibleInputsError e \<and> assert_compatible X Y = Inl e \<and>
           (\<forall>xs ys. mse (X\<lparr>elems := xs\<rparr>) (Y\<lparr>elems := ys\<rparr>) = Inl e) \<and>
           (\<forall>xs ys mode. nrmse (X\<lparr>elems := xs\<rparr>) (Y\<lparr>elems := ys\<rparr>) mode = Inl e) \<and>
           (\<forall>xs ys tbl dr. psnr tbl (X\<lparr>elems := xs\<rparr>) (Y\<lparr>elems := ys\<rparr>) dr = Inl e)"
proof -
  from assert_compatible_Inl [OF assms] obtain e
    where e: "assert_compatible X Y = Inl e" "IncompatibleInputsError e" by blast
  have upd: "assert_compatible (X\<lparr>elems := xs\<rparr>) (Y\<lparr>elems := ys\<rparr>) = Inl e" for xs ys
    using e(1) by (auto simp: assert_compatible_def split: if_splits)
  show ?thesis
    using e upd by (auto intro: mse_incompatible nrmse_incompatible psnr_incompatible)
qed

theorem incompatible_inputs_rejected_witness:
  "dtype img_R \<noteq> dtype img_F
   \<and> mse img_R img_F = Inl (ValueError msg_dtype)
   \<and> nrmse img_R img_F ''bogus'' = Inl (ValueError msg_dtype)
   \<and> psnr example_table img_R img_F None = Inl (ValueError msg_dtype)
   \<and> shape img_R \<noteq> shape img_S
   \<and> mse img_R img_S = Inl (ValueError msg_dimensions)
   \<and> nrmse img_R img_S ''bogus'' = Inl (ValueError msg_dimensions)
   \<and> psnr example_table img_R img_S None = Inl (ValueError msg_dimensions)"
proof -
  have hF: "dtype img_R \<noteq> dtype img_F \<or> shape img_R \<noteq> shape img_F"
    and hS: "dtype img_R \<noteq> dtype img_S \<or> shape img_R \<noteq> shape img_S"
    by (simp_all add: img_R_def img_F_def img_S_def)
  have aF: "assert_compatible img_R img_F = Inl (ValueError msg_dtype)"
    and aS: "assert_compatible img_R img_S = Inl (ValueError msg_dimensions)"
    by (simp_all add: assert_compatible_def img_R_def img_F_def img_S_def)
  from incompatible_inputs_rejected [OF hF] obtain e
    where e: "assert_compatible img_R img_F = Inl e"
      and m: "\<And>xs ys. mse (img_R\<lparr>elems := xs\<rparr>) (img_F\<lparr>elems := ys\<rparr>) = Inl e"
      and n: "\<And>xs ys mode. nrmse (img_R\<lparr>elems := xs\<rparr>) (img_F\<lparr>elems := ys\<rparr>) mode = Inl e"
      and p: "\<And>xs ys tbl dr. psnr tbl (img_R\<lparr>elems := xs\<rparr>) (img_F\<lparr>elems := ys\<rparr>) dr = Inl e"
    by blast
  from e aF have "e = ValueError msg_dtype" by simp
  with m [of "elems img_R" "elems img_F"] n [of "elems img_R" "elems img_F" "''bogus''"]
    p [of example_table "elems img_R" "elems img_F" None]
  have F: "mse img_R img_F = Inl (ValueError msg_dtype)"
      "nrmse img_R img_F ''bogus'' = Inl (ValueError msg_dtype)"
      "psnr example_table img_R img_F None = Inl (ValueError msg_dtype)"
    by simp_all
  from incompatible_inputs_rejected [OF hS] obtain e'
    where e': "assert_compatible img_R img_S = Inl e'"
      and m': "\<And>xs ys. mse (img_R\<lparr>elems := xs\<rparr>) (img_S\<lparr>elems := ys\<rparr>) = Inl e'"
      and n': "\<And>xs ys mode. nrmse (img_R\<lparr>elems := xs\<rparr>) (img_S\<lparr>elems := ys\<rparr>) mode = Inl e'"
      and p': "\<And>xs ys tbl dr. psnr tbl (img_R\<lparr>elems := xs\<rparr>) (img_S\<lparr>elems := ys\<rparr>) dr = Inl e'"
    by blast
  from e' aS have "e' = ValueError msg_dimensions" by simp
  with m' [of "elems img_R" "elems img_S"] n' [of "elems img_R" "elems img_S" "''bogus''"]
    p' [of example_table "elems img_R" "elems img_S" None]
  have S: "mse img_R img_S = Inl (ValueError msg_dimensions)"
      "nrmse img_R img_S ''bogus'' = Inl (ValueError msg_dimensions)"
      "psnr example_table img_R img_S None = Inl (ValueError msg_dimensions)"
    by simp_all
  have "dtype img_R \<noteq> dtype img_F" "shape img_R \<noteq> shape img_S"
    by (simp_all add: img_R_def img_F_def img_S_def)
  with F S show ?thesis by simp
qed

lemma lower_char_idem: "lower_char (lower_char c) = lower_char c"
  by (simp add: lower_char_def Let_def)

lemma lower_idem: "lower (lower s) = lower s"
  by (simp add: lower_def lower_char_idem)

lemma lower_EUCLIDEAN: "lower ''EUCLIDEAN'' = ''euclidean''"
  by code_simp

lemma lower_euclidean: "lower ''euclidean'' = ''euclidean''"
  by code_simp

lemma lower_Mean: "lower ''Mean'' = ''mean''"
  by code_simp

lemma lower_min_max: "lower ''min-max'' = ''min-max''"
  by code_simp

lemma lower_bogus: "lower ''bogus'' = ''bogus''"
  by code_simp

lemma lower_Euclidean: "lower ''Euclidean'' = ''euclidean''"
  by code_simp

lemma lower_mean: "lower ''mean'' = ''mean''"
  by code_simp

lemma denominator_not_unsupported:
  assumes "mode = ''euclidean'' \<or> mode = ''min-max'' \<or> mode = ''mean''"
  shows "denominator mode R \<noteq> Inl (ValueError msg_norm_type)"
  using assms
  by (auto simp: denominator_def amax_def amin_def msg_norm_type_def msg_zero_size_max_def
      msg_zero_size_min_def split: list.splits sum.splits)

lemma denominator_unsupported:
  assumes "mode \<noteq> ''euclidean''" "mode \<noteq> ''min-max''" "mode \<noteq> ''mean''"
  shows "denominator mode R = Inl (ValueError msg_norm_type)"
  using assms by (simp add: denominator_def)

lemma nrmse_bogus: "nrmse img_R img_T ''bogus'' = Inl (ValueError msg_norm_type)"
  by (simp add: nrmse_def assert_compatible_def as_floats_def astype_float64_def Let_def img_R_def
      img_T_def lower_bogus)

lemma img_R_img_T_compatible: "dtype img_R = dtype img_T" "shape img_R = shape img_T"
  by (simp_all add: img_R_def img_T_def)

lemma promoted_img_R:
  "mean (promoted img_R) = Fin 1" "mean (square (promoted img_R)) = Fin 2"
  "amax (promoted img_R) = Inr (Fin 2)" "amin (promoted img_R) = Inr (Fin 0)"
  by (simp_all add: promoted_def astype_float64_def img_R_def mean_def square_def fsum_def
      amax_def amin_def fmax_def fmin_def round_small)

lemma nrmse_mean_example: "nrmse img_R img_T ''Mean'' = Inr (fdiv (fsqrt (Fin 2)) (Fin 1))"
  by (simp only: nrmse_compatible [OF img_R_img_T_compatible] lower_Mean denominator_def
      promoted_img_R mse_img_R_img_T) simp

text \<open>
  Claim C5. On arrays of one element type and one shape, \<open>nrmse\<close> fails with
  \<open>UnsupportedNormModeError\<close> exactly when the lower-cased mode is none of \<open>euclidean\<close>,
  \<open>min-max\<close> and \<open>mean\<close>. The mode is matched without regard to case: a mode behaves as
  its lower-cased form, \<open>EUCLIDEAN\<close> as \<open>euclidean\<close>.
\<close>

theorem nrmse_unsupported_mode:
  assumes "dtype R = dtype T" and "shape R = shape T"
  shows "((\<exists>e. nrmse R T mode = Inl e \<and> UnsupportedNormModeError e) \<longleftrightarrow>
            lower mode \<noteq> ''euclidean'' \<and> lower mode \<noteq> ''min-max'' \<and> lower mode \<noteq> ''mean'')
         \<and> nrmse R T mode = nrmse R T (lower mode)
         \<and> nrmse R T ''EUCLIDEAN'' = nrmse R T ''euclidean''"
proof -
  obtain v where v: "mse R T = Inr v"
    using mse_returns [OF assms] by blast
  have unfolded: "nrmse R T m =
      (case denominator (lower m) (promoted R) of
         Inl e \<Rightarrow> Inl e
       | Inr d \<Rightarrow> Inr (fdiv (fsqrt v) d))" for m
    by (simp add: nrmse_compatible [OF assms] v cong: sum.case_cong)
  have iff: "(\<exists>e. nrmse R T mode = Inl e \<and> UnsupportedNormModeError e) \<longleftrightarrow>
      lower mode \<noteq> ''euclidean'' \<and> lower mode \<noteq> ''min-max'' \<and> lower mode \<noteq> ''mean''"
  proof (cases "lower mode = ''euclidean'' \<or> lower mode = ''min-max'' \<or> lower mode = ''mean''")
    case True
    from denominator_not_unsupported [OF True, of "promoted R"]
    have "\<not> (\<exists>e. nrmse R T mode = Inl e \<and> UnsupportedNormModeError e)"
      by (auto simp: unfolded UnsupportedNormModeError_def split: sum.splits)
    with True show ?thesis by auto
  next
    case False
    then have "denominator (lower mode) (promoted R) = Inl (ValueError msg_norm_type)"
      by (simp add: denominator_unsupported)
    then have "nrmse R T mode = Inl (ValueError msg_norm_type)"
      by (simp add: unfolded)
    with False show ?thesis by (simp add: UnsupportedNormModeError_def)
  qed
  have low: "nrmse R T mode = nrmse R T (lower mode)"
    by (simp add: unfolded lower_idem)
  have euc: "nrmse R T ''EUCLIDEAN'' = nrmse R T ''euclidean''"
    unfolding unfolded [of "''EUCLIDEAN''"] unfolded [of "''euclidean''"] lower_EUCLIDEAN
      lower_euclidean ..
  from iff low euc show ?thesis by blast
qed

theorem nrmse_unsupported_mode_witness:
  "dtype img_R = dtype img_T \<and> shape img_R = shape img_T
   \<and> lower ''bogus'' = ''bogus''
   \<and> nrmse img_R img_T ''bogus'' = Inl (ValueError msg_norm_type)
   \<and> UnsupportedNormModeError (ValueError msg_norm_type)
   \<and> lower ''Mean'' = ''mean''
   \<and> nrmse img_R img_T ''Mean'' = Inr (fdiv (fsqrt (Fin 2)) (Fin 1))
   \<and> nrmse img_R img_T ''Mean'' = nrmse img_R img_T ''mean''
   \<and> nrmse img_R img_T ''EUCLIDEAN'' = nrmse img_R img_T ''euclidean''"
proof -
  have h: "dtype img_R = dtype img_T" "shape img_R = shape img_T"
    by (simp_all add: img_R_def img_T_def)
  note inst = nrmse_unsupported_mode [OF h]
  have "(\<exists>e. nrmse img_R img_T ''bogus'' = Inl e \<and> UnsupportedNormModeError e) \<longleftrightarrow>
      lower ''bogus'' \<noteq> ''euclidean'' \<and> lower ''bogus'' \<noteq> ''min-max'' \<and> lower ''bogus'' \<noteq> ''mean''"
    by (rule inst [of "''bogus''", THEN conjunct1])
  then have "\<exists>e. nrmse img_R img_T ''bogus'' = Inl e \<and> UnsupportedNormModeError e"
    unfolding lower_bogus by simp
  then have bogus: "nrmse img_R img_T ''bogus'' = Inl (ValueError msg_norm_type)"
    and unsupported: "UnsupportedNormModeError (ValueError msg_norm_type)"
    by (auto simp: UnsupportedNormModeError_def)
  have "nrmse img_R img_T ''Mean'' = nrmse img_R img_T (lower ''Mean'')"
    by (rule inst [of "''Mean''", THEN conjunct2, THEN conjunct1])
  then have mean: "nrmse img_R img_T ''Mean'' = nrmse img_R img_T ''mean''"
    unfolding lower_Mean .
  have euc: "nrmse img_R img_T ''EUCLIDEAN'' = nrmse img_R img_T ''euclidean''"
    by (rule inst [of "''Mean''", THEN conjunct2, THEN conjunct2])
  from h lower_bogus bogus unsupported lower_Mean nrmse_mean_example mean euc
  show ?thesis by blast
qed

lemma amin_amax_error:
  "amin R = Inl e \<Longrightarrow> e = ValueError msg_zero_size_min"
  "amax R = Inl e \<Longrightarrow> e = ValueError msg_zero_size_max"
  by (auto simp: amin_def amax_def split: list.splits)

lemma msg_range_distinct:
  "msg_range \<noteq> msg_zero_size_min" "msg_range \<noteq> msg_zero_size_max"
  "msg_range \<noteq> msg_dtype" "msg_range \<noteq> msg_dimensions"
  by (simp_all add: msg_range_def msg_zero_size_min_def msg_zero_size_max_def msg_dtype_def
      msg_dimensions_def)

lemma infer_out_of_range_iff:
  assumes "tbl (dtype R) = Some (dmin, dmax)"
  shows "infer_dynamic_range tbl R = Inl (ValueError msg_range) \<longleftrightarrow>
     (\<exists>mn mx. amin R = Inr mn \<and> amax R = Inr mx \<and> (fgt mx (Fin dmax) \<or> flt mn (Fin dmin)))"
proof (cases "amin R")
  case (Inl e)
  with amin_amax_error(1) [OF Inl] msg_range_distinct(1) show ?thesis
    by (auto simp: infer_dynamic_range_def assms)
next
  case mn: (Inr mn)
  show ?thesis
  proof (cases "amax R")
    case (Inl e)
    with amin_amax_error(2) [OF Inl] msg_range_distinct(2) mn show ?thesis
      by (auto simp: infer_dynamic_range_def assms)
  next
    case (Inr mx)
    with mn show ?thesis
      by (simp add: infer_dynamic_range_def assms)
  qed
qed

text \<open>
  Claim C6. On arrays of one element type and one shape, with no dynamic range supplied
  and a table entry \<open>(dmin, dmax)\<close> for the element type of the reference, \<open>psnr\<close> fails
  with \<open>OutOfRangeError\<close> exactly when the reference has a maximum and a minimum with
  \<open>max > dmax\<close> or \<open>min < dmin\<close>. The message of that error ends with the request to
  specify the dynamic range manually.
\<close>

theorem psnr_out_of_range:
  assumes "dtype R = dtype T" and "shape R = shape T"
    and "tbl (dtype R) = Some (dmin, dmax)"
  shows "((\<exists>e. psnr tbl R T None = Inl e \<and> OutOfRangeError e) \<longleftrightarrow>
            (\<exists>mn mx. amin R = Inr mn \<and> amax R = Inr mx \<and>
               (fgt mx (Fin dmax) \<or> flt mn (Fin dmin))))
         \<and> (\<forall>e. psnr tbl R T None = Inl e \<and> OutOfRangeError e \<longrightarrow>
               (\<exists>prefix. e = ValueError (prefix @ ''Please manually specify the dynamic_range'')))"
proof -
  obtain m where m: "mse R T = Inr m"
    using mse_returns [OF assms(1,2)] by blast
  have "(\<exists>e. psnr tbl R T None = Inl e \<and> OutOfRangeError e) \<longleftrightarrow>
      infer_dynamic_range tbl R = Inl (ValueError msg_range)"
    by (auto simp: psnr_inferred [OF assms(1,2) m] OutOfRangeError_def split: sum.splits)
  then have iff: "(\<exists>e. psnr tbl R T None = Inl e \<and> OutOfRangeError e) \<longleftrightarrow>
      (\<exists>mn mx. amin R = Inr mn \<and> amax R = Inr mx \<and> (fgt mx (Fin dmax) \<or> flt mn (Fin dmin)))"
    by (simp only: infer_out_of_range_iff [of tbl R dmin dmax, OF assms(3)])
  have "msg_range = ''im_true has intensity values outside the range expected for its data type.  ''
      @ ''Please manually specify the dynamic_range''"
    by (simp add: msg_range_def)
  then have msg: "\<exists>prefix. e = ValueError (prefix @ ''Please manually specify the dynamic_range'')"
    if "OutOfRangeError e" for e
    using that unfolding OutOfRangeError_def by blast
  from iff msg show ?thesis by blast
qed

theorem psnr_out_of_range_witness:
  "dtype img_300 = dtype img_290 \<and> shape img_300 = shape img_290
   \<and> example_table (dtype img_300) = Some (0, 255)
   \<and> amin img_300 = Inr (Fin 300) \<and> amax img_300 = Inr (Fin 300)
   \<and> fgt (Fin 300) (Fin 255)
   \<and> psnr example_table img_300 img_290 None = Inl (ValueError msg_range)
   \<and> OutOfRangeError (ValueError msg_range)
   \<and> msg_range = ''im_true has intensity values outside the range expected for its data type.  ''
        @ ''Please manually specify the dynamic_range''"
proof -
  have h: "dtype img_300 = dtype img_290" "shape img_300 = shape img_290"
      "example_table (dtype img_300) = Some (0, 255)"
    by (simp_all add: img_300_def img_290_def example_table_def)
  have r: "amin img_300 = Inr (Fin 300)" "amax img_300 = Inr (Fin 300)" "fgt (Fin 300) (Fin 255)"
    by (simp_all add: amin_def amax_def img_300_def fgt_def)
  from psnr_out_of_range [where R = img_300 and T = img_290 and tbl = example_table
      and dmin = 0 and dmax = 255, OF h] r
  obtain e where "psnr example_table img_300 img_290 None = Inl e" "OutOfRangeError e"
    by auto
  then have "psnr example_table img_300 img_290 None = Inl (ValueError msg_range)"
      "OutOfRangeError (ValueError msg_range)"
    by (simp_all add: OutOfRangeError_def)
  moreover have "msg_range =
      ''im_true has intensity values outside the range expected for its data type.  ''
        @ ''Please manually specify the dynamic_range''"
    by (simp add: msg_range_def)
  ultimately show ?thesis using h r by simp
qed

text \<open>
  Claim C7. On arrays of one element type and one shape, with no dynamic range supplied,
  \<open>psnr\<close> fails with \<open>UnknownDtypeError\<close> (the \<open>KeyError\<close> of the lookup) when the table
  has no entry for the element type of the reference.
\<close>

theorem psnr_unknown_dtype:
  assumes "dtype R = dtype T" and "shape R = shape T" and "tbl (dtype R) = None"
  shows "psnr tbl R T None = Inl (KeyError (dtype R)) \<and> UnknownDtypeError (KeyError (dtype R))"
proof -
  obtain m where m: "mse R T = Inr m"
    using mse_returns [OF assms(1,2)] by blast
  show ?thesis
    by (simp add: psnr_inferred [OF assms(1,2) m] infer_dynamic_range_def assms(3)
        UnknownDtypeError_def)
qed

theorem psnr_unknown_dtype_witness:
  "example_table (dtype img_H) = None
   \<and> psnr example_table img_H img_H None = Inl (KeyError Float16)
   \<and> UnknownDtypeError (KeyError Float16)"
proof -
  have h: "dtype img_H = dtype img_H" "shape img_H = shape img_H"
      "example_table (dtype img_H) = None"
    by (simp_all add: img_H_def example_table_def)
  have "dtype img_H = Float16"
    by (simp add: img_H_def)
  with psnr_unknown_dtype [where R = img_H and T = img_H and tbl = example_table, OF h] h(3)
  show ?thesis by simp
qed

lemma power2_errors: "power2 origin d = Inl e \<Longrightarrow> e = OverflowError"
  by (cases origin) (auto simp: power2_def split: if_splits)

lemma power2_overflow: "power2 FromCaller (Fin (2 ^ 512)) = Inl OverflowError"
proof -
  have "(2::real) ^ 512 * 2 ^ 512 = 2 ^ 1024"
    by (simp only: power_add [symmetric]) simp
  then have "fmul (Fin (2 ^ 512)) (Fin (2 ^ 512)) = PInf"
    by (simp only: fmul.simps round_2_1024)
  then show ?thesis
    by (simp only: power2_def origin.case is_finite.simps) simp
qed

lemma mse_img_300_img_290: "mse img_300 img_290 = Inr (Fin 100)"
  by (simp add: mse_def assert_compatible_def as_floats_def astype_float64_def Let_def
      img_300_def img_290_def mean_def square_def arr_sub_def fsum_def fsub_def round_small)

lemma mse_img_H_img_H: "mse img_H img_H = Inr (Fin 0)"
  by (simp add: mse_def assert_compatible_def as_floats_def astype_float64_def Let_def
      img_H_def mean_def square_def arr_sub_def fsum_def fsub_def round_small)

text \<open>
  Claim C10. With a dynamic range supplied, \<open>psnr\<close> neither looks the element type up nor
  checks the minimum and maximum of the reference: it never fails with
  \<open>UnknownDtypeError\<close> or \<open>OutOfRangeError\<close>, whatever the arrays and the table are, and
  its result does not depend on the table.
\<close>

theorem psnr_supplied_dynamic_range:
  "(\<forall>e. psnr tbl R T (Some d) = Inl e \<longrightarrow> \<not> UnknownDtypeError e \<and> \<not> OutOfRangeError e)
   \<and> (\<forall>tbl'. psnr tbl' R T (Some d) = psnr tbl R T (Some d))"
proof (cases "dtype R = dtype T \<and> shape R = shape T")
  case True
  then obtain m where m: "mse R T = Inr m"
    using mse_returns by blast
  from True have unfolded: "psnr tbl' R T (Some d) =
      (case power2 FromCaller d of
         Inl e \<Rightarrow> Inl e
       | Inr sq \<Rightarrow> Inr (fmul (Fin 10) (flog10 (fdiv sq m))))" for tbl'
    by (simp add: psnr_supplied m)
  have "\<not> UnknownDtypeError e \<and> \<not> OutOfRangeError e" if "psnr tbl R T (Some d) = Inl e" for e
  proof -
    from that have "power2 FromCaller d = Inl e"
      unfolding unfolded by (cases "power2 FromCaller d") simp_all
    then have "e = OverflowError" by (rule power2_errors)
    then show ?thesis by (simp add: UnknownDtypeError_def OutOfRangeError_def)
  qed
  moreover have "psnr tbl' R T (Some d) = psnr tbl R T (Some d)" for tbl'
    unfolding unfolded ..
  ultimately show ?thesis by blast
next
  case False
  then obtain e where e: "assert_compatible R T = Inl e" "IncompatibleInputsError e"
    using assert_compatible_Inl [of R T] by blast
  then have "psnr tbl' R T (Some d) = Inl e" for tbl'
    by (simp add: psnr_incompatible)
  moreover have "\<not> UnknownDtypeError e \<and> \<not> OutOfRangeError e"
    using e(2) msg_range_distinct(3,4)
    by (auto simp: IncompatibleInputsError_def UnknownDtypeError_def OutOfRangeError_def)
  ultimately show ?thesis by auto
qed

theorem psnr_supplied_dynamic_range_witness:
  "psnr example_table img_R img_F (Some (Fin 255)) = Inl (ValueError msg_dtype)
   \<and> \<not> UnknownDtypeError (ValueError msg_dtype) \<and> \<not> OutOfRangeError (ValueError msg_dtype)
   \<and> psnr example_table img_300 img_290 (Some (Fin (2 ^ 512))) = Inl OverflowError
   \<and> \<not> UnknownDtypeError OverflowError \<and> \<not> OutOfRangeError OverflowError
   \<and> example_table (dtype img_H) = None
   \<and> psnr example_table img_H img_H (Some (Fin 1)) = Inr PInf"
proof -
  have F: "psnr example_table img_R img_F (Some (Fin 255)) = Inl (ValueError msg_dtype)"
    by (simp add: psnr_def assert_compatible_def img_R_def img_F_def)
  with psnr_supplied_dynamic_range [of example_table img_R img_F "Fin 255"]
  have nF: "\<not> UnknownDtypeError (ValueError msg_dtype)" "\<not> OutOfRangeError (ValueError msg_dtype)"
    by simp_all
  have h: "dtype img_300 = dtype img_290" "shape img_300 = shape img_290"
    by (simp_all add: img_300_def img_290_def)
  have O: "psnr example_table img_300 img_290 (Some (Fin (2 ^ 512))) = Inl OverflowError"
    by (simp only: psnr_supplied [OF h mse_img_300_img_290] power2_overflow sum.case)
  with psnr_supplied_dynamic_range [of example_table img_300 img_290 "Fin (2 ^ 512)"]
  have nO: "\<not> UnknownDtypeError OverflowError" "\<not> OutOfRangeError OverflowError"
    by blast+
  have hH: "dtype img_H = dtype img_H" "shape img_H = shape img_H" by simp_all
  have H: "psnr example_table img_H img_H (Some (Fin 1)) = Inr PInf"
    by (simp add: psnr_supplied [OF hH mse_img_H_img_H] power2_def round_small)
  have "example_table (dtype img_H) = None"
    by (simp add: img_H_def example_table_def)
  with F nF O nO H show ?thesis by blast
qed

subsection \<open>Values of \<open>nrmse\<close> and \<open>psnr\<close>\<close>

lemma amax_nonempty: "elems R \<noteq> [] \<Longrightarrow> \<exists>mx. amax R = Inr mx"
  by (cases "elems R") (simp_all add: amax_def)

lemma amin_nonempty: "elems R \<noteq> [] \<Longrightarrow> \<exists>mn. amin R = Inr mn"
  by (cases "elems R") (simp_all add: amin_def)

lemma promoted_nonempty: "elems R \<noteq> [] \<Longrightarrow> elems (promoted R) \<noteq> []"
  using promoted_fields(3) [of R] by (cases "elems (promoted R)") auto

lemma nrmse_denominators:
  assumes "dtype R = dtype T" and "shape R = shape T"
  shows "\<exists>m. mse R T = Inr m \<and>
     (lower mode = ''euclidean'' \<longrightarrow>
        nrmse R T mode = Inr (fdiv (fsqrt m) (fsqrt (mean (square (promoted R)))))) \<and>
     (lower mode = ''min-max'' \<and> elems R \<noteq> [] \<longrightarrow>
        (\<exists>mx mn. amax (promoted R) = Inr mx \<and> amin (promoted R) = Inr mn \<and>
           nrmse R T mode = Inr (fdiv (fsqrt m) (fsub mx mn)))) \<and>
     (lower mode = ''mean'' \<longrightarrow>
        nrmse R T mode = Inr (fdiv (fsqrt m) (mean (promoted R))))"
proof -
  obtain m where m: "mse R T = Inr m"
    using mse_returns [OF assms] by blast
  have unfolded: "nrmse R T mode =
      (case denominator (lower mode) (promoted R) of
         Inl e \<Rightarrow> Inl e
       | Inr d \<Rightarrow> Inr (fdiv (fsqrt m) d))"
    by (simp add: nrmse_compatible [OF assms] m cong: sum.case_cong)
  have euclidean: "nrmse R T mode = Inr (fdiv (fsqrt m) (fsqrt (mean (square (promoted R)))))"
    if "lower mode = ''euclidean''"
    using that by (simp add: unfolded denominator_def)
  have min_max: "\<exists>mx mn. amax (promoted R) = Inr mx \<and> amin (promoted R) = Inr mn \<and>
      nrmse R T mode = Inr (fdiv (fsqrt m) (fsub mx mn))"
    if "lower mode = ''min-max''" "elems R \<noteq> []"
  proof -
    from promoted_nonempty [OF that(2)] have "elems (promoted R) \<noteq> []" .
    from amax_nonempty [OF this] amin_nonempty [OF this]
    obtain mx mn where "amax (promoted R) = Inr mx" "amin (promoted R) = Inr mn" by blast
    with that(1) show ?thesis
      by (simp add: unfolded denominator_def)
  qed
  have mean_mode: "nrmse R T mode = Inr (fdiv (fsqrt m) (mean (promoted R)))"
    if "lower mode = ''mean''"
    using that by (simp add: unfolded denominator_def)
  from m euclidean min_max mean_mode show ?thesis by blast
qed

lemma img_U_facts:
  "amax img_U = Inr (Fin 9007199254740993)" "amin img_U = Inr (Fin 9007199254740992)"
  "fsub (Fin 9007199254740993) (Fin 9007199254740992) = Fin 1"
  "mse img_U img_U = Inr (Fin 0)"
  "fdiv (fsqrt (Fin 0)) (Fin 1) = Fin 0"
  "nrmse img_U img_U ''min-max'' = Inr NaN"
  by (simp_all add: nrmse_def mse_def assert_compatible_def as_floats_def astype_float64_def
      Let_def img_U_def lower_min_max mean_def square_def arr_sub_def fsum_def fsub_def
      amax_def amin_def fmax_def fmin_def round_2_53_plus_1 round_small)

text \<open>
  Claim C2, as amended. On arrays of one element type and one shape \<open>mse\<close> returns a
  scalar \<open>m\<close>, and \<open>nrmse\<close> returns \<open>sqrt m\<close> divided by the denominator of the mode,
  computed from the reference converted to binary64: \<open>sqrt (mean (R\<^sup>2))\<close> for
  \<open>euclidean\<close>, \<open>mean R\<close> for \<open>mean\<close>, and \<open>max R - min R\<close> for \<open>min-max\<close> when the
  reference has at least one element. The equation is between scalars, exactly; it holds
  for a nonzero denominator, and for a zero one too.
\<close>

theorem nrmse_normalized:
  assumes "dtype R = dtype T" and "shape R = shape T"
  shows "\<exists>m. mse R T = Inr m \<and>
     (lower mode = ''euclidean'' \<longrightarrow>
        nrmse R T mode = Inr (fdiv (fsqrt m) (fsqrt (mean (square (promoted R)))))) \<and>
     (lower mode = ''min-max'' \<and> elems R \<noteq> [] \<longrightarrow>
        (\<exists>mx mn. amax (promoted R) = Inr mx \<and> amin (promoted R) = Inr mn \<and>
           nrmse R T mode = Inr (fdiv (fsqrt m) (fsub mx mn)))) \<and>
     (lower mode = ''mean'' \<longrightarrow>
        nrmse R T mode = Inr (fdiv (fsqrt m) (mean (promoted R))))"
  using assms by (rule nrmse_denominators)

theorem nrmse_normalized_witness:
  "dtype img_R = dtype img_T \<and> shape img_R = shape img_T
   \<and> mse img_R img_T = Inr (Fin 2)
   \<and> lower ''Euclidean'' = ''euclidean'' \<and> mean (square (promoted img_R)) = Fin 2
   \<and> nrmse img_R img_T ''Euclidean'' = Inr (fdiv (fsqrt (Fin 2)) (fsqrt (Fin 2)))
   \<and> lower ''min-max'' = ''min-max'' \<and> elems img_R \<noteq> []
   \<and> amax (promoted img_R) = Inr (Fin 2) \<and> amin (promoted img_R) = Inr (Fin 0)
   \<and> nrmse img_R img_T ''min-max'' = Inr (fdiv (fsqrt (Fin 2)) (fsub (Fin 2) (Fin 0)))
   \<and> lower ''mean'' = ''mean'' \<and> mean (promoted img_R) = Fin 1
   \<and> nrmse img_R img_T ''mean'' = Inr (fdiv (fsqrt (Fin 2)) (Fin 1))"
proof -
  note h = img_R_img_T_compatible
  have ne: "elems img_R \<noteq> []" by (simp add: img_R_def)
  from nrmse_normalized [OF h, of "''Euclidean''"] mse_img_R_img_T lower_Euclidean
  have e: "nrmse img_R img_T ''Euclidean''
      = Inr (fdiv (fsqrt (Fin 2)) (fsqrt (mean (square (promoted img_R)))))"
    by auto
  from nrmse_normalized [OF h, of "''min-max''"] mse_img_R_img_T lower_min_max ne
    promoted_img_R(3,4)
  have mm: "nrmse img_R img_T ''min-max'' = Inr (fdiv (fsqrt (Fin 2)) (fsub (Fin 2) (Fin 0)))"
    by auto
  from nrmse_normalized [OF h, of "''mean''"] mse_img_R_img_T lower_mean
  have mn: "nrmse img_R img_T ''mean'' = Inr (fdiv (fsqrt (Fin 2)) (mean (promoted img_R)))"
    by auto
  from e mm mn show ?thesis
    unfolding promoted_img_R(1,2)
    using h ne promoted_img_R mse_img_R_img_T lower_Euclidean lower_min_max lower_mean
    by blast
qed

text \<open>
  Claim C2 as stated covers every pair of arrays of one element type and one shape, with
  the denominator computed from the reference. On arrays without elements \<open>nrmse\<close> with
  mode \<open>min-max\<close> returns nothing: the reduction \<open>max\<close> of NumPy raises \<open>ValueError\<close>.
  On the 64-bit integers \<open>2\<^sup>5\<^sup>3 + 1\<close> and \<open>2\<^sup>5\<^sup>3\<close> the reference has \<open>max - min = 1\<close>, not
  zero, and \<open>mse\<close> of the array with itself is 0, so that the stated quotient is 0; \<open>nrmse\<close>
  returns NaN, the quotient \<open>0 / 0\<close> on the converted array.
\<close>

theorem nrmse_normalized_counterexample:
  "elems img_E = [] \<and> nrmse img_E img_E ''min-max'' = Inl (ValueError msg_zero_size_max)
   \<and> amax img_U = Inr (Fin 9007199254740993) \<and> amin img_U = Inr (Fin 9007199254740992)
   \<and> fsub (Fin 9007199254740993) (Fin 9007199254740992) = Fin 1
   \<and> mse img_U img_U = Inr (Fin 0)
   \<and> fdiv (fsqrt (Fin 0)) (Fin 1) = Fin 0
   \<and> nrmse img_U img_U ''min-max'' = Inr NaN"
proof -
  have "elems img_E = []"
      "nrmse img_E img_E ''min-max'' = Inl (ValueError msg_zero_size_max)"
    by (simp_all add: nrmse_def assert_compatible_def as_floats_def Let_def img_E_def
        lower_min_max amax_def)
  with img_U_facts show ?thesis by blast
qed

lemma in_range_Fin: "in_range lo hi x \<longleftrightarrow> (\<exists>r. x = Fin r \<and> lo \<le> r \<and> r \<le> hi)"
  by (cases x) (simp_all add: in_range_def)

lemma in_range_fmax: "in_range lo hi x \<Longrightarrow> in_range lo hi y \<Longrightarrow> in_range lo hi (fmax x y)"
  by (auto simp: in_range_Fin fmax_def)

lemma in_range_fmin: "in_range lo hi x \<Longrightarrow> in_range lo hi y \<Longrightarrow> in_range lo hi (fmin x y)"
  by (auto simp: in_range_Fin fmin_def)

lemma in_range_foldl_fmax:
  "in_range lo hi a \<Longrightarrow> \<forall>x\<in>set xs. in_range lo hi x \<Longrightarrow> in_range lo hi (foldl fmax a xs)"
  by (induction xs arbitrary: a) (simp_all add: in_range_fmax)

lemma in_range_foldl_fmin:
  "in_range lo hi a \<Longrightarrow> \<forall>x\<in>set xs. in_range lo hi x \<Longrightarrow> in_range lo hi (foldl fmin a xs)"
  by (induction xs arbitrary: a) (simp_all add: in_range_fmin)

lemma amax_in_range:
  assumes "elems R \<noteq> []" "\<forall>x\<in>set (elems R). in_range lo hi x"
  shows "\<exists>mx. amax R = Inr mx \<and> in_range lo hi mx"
  using assms by (cases "elems R") (simp_all add: amax_def in_range_foldl_fmax)

lemma amin_in_range:
  assumes "elems R \<noteq> []" "\<forall>x\<in>set (elems R). in_range lo hi x"
  shows "\<exists>mn. amin R = Inr mn \<and> in_range lo hi mn"
  using assms by (cases "elems R") (simp_all add: amin_def in_range_foldl_fmin)

lemma in_range_not_outside: "in_range lo hi x \<Longrightarrow> \<not> fgt x (Fin hi) \<and> \<not> flt x (Fin lo)"
  by (auto simp: in_range_Fin fgt_def)

lemma infer_in_range:
  assumes "tbl (dtype R) = Some (dmin, dmax)" "elems R \<noteq> []"
    and "\<forall>x\<in>set (elems R). in_range dmin dmax x"
  shows "\<exists>mn. amin R = Inr mn \<and>
           infer_dynamic_range tbl R =
             Inr (if fge mn (Fin 0) then Fin dmax else Fin (dmax - dmin))"
proof -
  from amin_in_range [OF assms(2,3)] obtain mn where mn: "amin R = Inr mn" "in_range dmin dmax mn"
    by blast
  from amax_in_range [OF assms(2,3)] obtain mx where mx: "amax R = Inr mx" "in_range dmin dmax mx"
    by blast
  from in_range_not_outside [OF mn(2)] in_range_not_outside [OF mx(2)]
  have "\<not> (fgt mx (Fin dmax) \<or> flt mn (Fin dmin))" by simp
  then show ?thesis
    using mn(1) mx(1) assms(1) by (simp add: infer_dynamic_range_def)
qed

lemma mse_img_N_img_Z: "mse img_N img_Z = Inr (Fin 1)"
  by (simp add: mse_def assert_compatible_def as_floats_def astype_float64_def Let_def img_N_def
      img_Z_def mean_def square_def arr_sub_def fsum_def fsub_def round_small)

text \<open>
  Claim C3, as amended. On arrays of one element type and one shape, with no dynamic range
  supplied, a table entry \<open>(dmin, dmax)\<close> for the element type of the reference, and a
  reference with at least one element whose elements all lie between \<open>dmin\<close> and \<open>dmax\<close>:
  the dynamic range inferred is \<open>dmax\<close> when \<open>min R \<ge> 0\<close> and \<open>dmax - dmin\<close>
  otherwise, and \<open>psnr\<close> returns \<open>10 * log10 (dynamic_range\<^sup>2 / mse R T)\<close>.
\<close>

theorem psnr_inferred_dynamic_range:
  assumes "dtype R = dtype T" and "shape R = shape T"
    and "elems R \<noteq> []"
    and "tbl (dtype R) = Some (dmin, dmax)"
    and "\<forall>x\<in>set (elems R). fle (Fin dmin) x \<and> fle x (Fin dmax)"
  shows "\<exists>mn m. amin R = Inr mn \<and> mse R T = Inr m \<and>
           infer_dynamic_range tbl R =
             Inr (if fge mn (Fin 0) then Fin dmax else Fin (dmax - dmin)) \<and>
           psnr tbl R T None =
             (let dynamic_range = (if fge mn (Fin 0) then Fin dmax else Fin (dmax - dmin))
              in Inr (fmul (Fin 10) (flog10 (fdiv (fmul dynamic_range dynamic_range) m))))"
proof -
  obtain m where m: "mse R T = Inr m"
    using mse_returns [OF assms(1,2)] by blast
  from assms(5) have "\<forall>x\<in>set (elems R). in_range dmin dmax x"
    by (simp add: in_range_def)
  from infer_in_range [where tbl = tbl and R = R and dmin = dmin and dmax = dmax,
      OF assms(4,3) this] obtain mn
    where mn: "amin R = Inr mn"
      "infer_dynamic_range tbl R = Inr (if fge mn (Fin 0) then Fin dmax else Fin (dmax - dmin))"
    by blast
  have "psnr tbl R T None =
      (let dynamic_range = (if fge mn (Fin 0) then Fin dmax else Fin (dmax - dmin))
       in Inr (fmul (Fin 10) (flog10 (fdiv (fmul dynamic_range dynamic_range) m))))"
    unfolding psnr_inferred [OF assms(1,2) m] mn(2) Let_def by simp
  with m mn show ?thesis by blast
qed

theorem psnr_inferred_dynamic_range_witness:
  "dtype img_R = dtype img_T \<and> shape img_R = shape img_T
   \<and> elems img_R = [Fin 0, Fin 2, Fin 2, Fin 0]
   \<and> example_table (dtype img_R) = Some (0, 255)
   \<and> amin img_R = Inr (Fin 0) \<and> mse img_R img_T = Inr (Fin 2)
   \<and> infer_dynamic_range example_table img_R = Inr (Fin 255)
   \<and> psnr example_table img_R img_T None = Inr (fmul (Fin 10) (flog10 (fdiv (fmul (Fin 255) (Fin 255)) (Fin 2))))
   \<and> dtype img_N = dtype img_Z \<and> shape img_N = shape img_Z
   \<and> elems img_N = [Fin (- 1), Fin 1]
   \<and> example_table (dtype img_N) = Some (- 128, 127)
   \<and> amin img_N = Inr (Fin (- 1)) \<and> mse img_N img_Z = Inr (Fin 1)
   \<and> infer_dynamic_range example_table img_N = Inr (Fin 255)
   \<and> psnr example_table img_N img_Z None = Inr (fmul (Fin 10) (flog10 (fdiv (fmul (Fin 255) (Fin 255)) (Fin 1))))"
proof -
  have hR: "dtype img_R = dtype img_T" "shape img_R = shape img_T" "elems img_R \<noteq> []"
      "example_table (dtype img_R) = Some (0, 255)"
      "\<forall>x\<in>set (elems img_R). fle (Fin 0) x \<and> fle x (Fin 255)"
    by (simp_all add: img_R_def img_T_def example_table_def)
  have eR: "elems img_R = [Fin 0, Fin 2, Fin 2, Fin 0]" "amin img_R = Inr (Fin 0)"
    by (simp_all add: img_R_def amin_def fmin_def)
  from psnr_inferred_dynamic_range [where R = img_R and T = img_T and tbl = example_table
      and dmin = 0 and dmax = 255, OF hR] eR(2) mse_img_R_img_T
  have rR: "infer_dynamic_range example_table img_R = Inr (Fin 255)"
      "psnr example_table img_R img_T None = Inr (fmul (Fin 10) (flog10 (fdiv (fmul (Fin 255) (Fin 255)) (Fin 2))))"
    by (auto simp: fge_def Let_def simp del: fmul.simps fdiv.simps flog10.simps)
  have hN: "dtype img_N = dtype img_Z" "shape img_N = shape img_Z" "elems img_N \<noteq> []"
      "example_table (dtype img_N) = Some (- 128, 127)"
      "\<forall>x\<in>set (elems img_N). fle (Fin (- 128)) x \<and> fle x (Fin 127)"
    by (simp_all add: img_N_def img_Z_def example_table_def)
  have eN: "elems img_N = [Fin (- 1), Fin 1]" "amin img_N = Inr (Fin (- 1))"
    by (simp_all add: img_N_def amin_def fmin_def)
  from psnr_inferred_dynamic_range [where R = img_N and T = img_Z and tbl = example_table
      and dmin = "- 128" and dmax = 127, OF hN] eN(2) mse_img_N_img_Z
  have rN: "infer_dynamic_range example_table img_N = Inr (Fin 255)"
      "psnr example_table img_N img_Z None = Inr (fmul (Fin 10) (flog10 (fdiv (fmul (Fin 255) (Fin 255)) (Fin 1))))"
    by (auto simp: fge_def Let_def simp del: fmul.simps fdiv.simps flog10.simps)
  from hR(1,2,4) eR mse_img_R_img_T rR hN(1,2,4) eN mse_img_N_img_Z rN show ?thesis
    by blast
qed

text \<open>
  Claim C3 as stated covers every pair of arrays of one element type and one shape whose
  values lie in the range. On arrays without elements \<open>psnr\<close> returns nothing: the
  reduction \<open>min\<close> of NumPy raises \<open>ValueError\<close>.
\<close>

theorem psnr_inferred_empty_counterexample:
  "dtype img_E = dtype img_E \<and> shape img_E = shape img_E \<and> valid_array img_E
   \<and> elems img_E = [] \<and> example_table (dtype img_E) = Some (- 1, 1)
   \<and> psnr example_table img_E img_E None = Inl (ValueError msg_zero_size_min)"
  by (simp add: psnr_def assert_compatible_def infer_dynamic_range_def example_table_def
      img_E_def amin_def valid_array_def)

subsection \<open>Zero divisors\<close>















lemma mse_img_T_img_T: "mse img_T img_T = Inr (Fin 0)"
  by (simp add: mse_def assert_compatible_def as_floats_def astype_float64_def Let_def
      img_T_def mean_def square_def arr_sub_def fsum_def fsub_def round_small)







end
